theory Spec2Isabelle
  imports Complex_Main
begin

section \<open>Automation events and the event timeline\<close>

text \<open>
  Signal.js forwards every scheduling call to \<open>this._param\<close>, a \<open>Param\<close> object whose class
  (core/context/Param.js) is not among the source files. The timeline, the curve evaluator
  and the parameter operations below are therefore written from sections 3, 4.1, 4.2 and 4.3
  of the specification. Times and values are JavaScript numbers; they are modelled as
  real numbers with exact arithmetic. Unit conversion is an opaque collaborator of the
  specification and is left out: values are already in the raw numeric domain, times are
  absolute seconds.
\<close>

datatype error = RangeError | InvalidOrderError | NotConnectedError

text \<open>
  Modelled from the spec: the AutomationEvent of section 3 (Param.js and its timeline are
  missing). Each event carries its schedule time; a value event or a ramp carries its value,
  a target event its time constant, a curve event its samples, duration and scaling.
\<close>

datatype AutomationEvent =
    SetValue (time: real) (eventValue: real)
  | LinearRamp (time: real) (eventValue: real)
  | ExponentialRamp (time: real) (eventValue: real)
  | SetTarget (time: real) (eventValue: real) (timeConstant: real)
  | CurveEvent (time: real) (curve: "real list") (duration: real) (scaling: real)

text \<open>
  Modelled from the spec: the value a curve event contributes, sampled at normalised position
  \<open>(t - t0) / duration\<close> with linear sampling between neighbouring samples (section 4.2
  leaves the choice between nearest and linear sampling open), scaled by \<open>scaling\<close>.
\<close>

definition sampleCurve :: "real list \<Rightarrow> real \<Rightarrow> real \<Rightarrow> real \<Rightarrow> real" where
  "sampleCurve c d s x =
     (if c = [] then 0
      else let n = length c;
               pos = max 0 (min 1 (x / d)) * real (n - 1);
               k = nat \<lfloor>pos\<rfloor>;
               a = c ! (min k (n - 1));
               b = c ! (min (Suc k) (n - 1))
           in s * (a + (b - a) * (pos - real k)))"

text \<open>
  Modelled from the spec: \<open>previous.value\<close> as the start point of a ramp (section 4.2). A curve
  event has no value field; the value it ends on is used.
\<close>

fun startValue :: "AutomationEvent \<Rightarrow> real" where
  "startValue (CurveEvent t0 c d s) = sampleCurve c d s d"
| "startValue e = eventValue e"

text \<open>
  Modelled from the spec: insert of section 4.1. The events before the new event's time stay,
  an event at exactly that time is replaced, the later events follow.
\<close>

definition insertEvent :: "AutomationEvent \<Rightarrow> AutomationEvent list \<Rightarrow> AutomationEvent list" where
  "insertEvent e evs =
     filter (\<lambda>x. time x < time e) evs @ [e] @ filter (\<lambda>x. time e < time x) evs"

text \<open>
  Modelled from the spec: getEventAt of section 4.1, the bracketing pair around a query time.
  The events at or before the time are returned latest first (the head is \<open>previous\<close>; the
  rest is needed for the start value of a target approach); \<open>next\<close> is the first later event.
\<close>

definition previousEvents :: "real \<Rightarrow> AutomationEvent list \<Rightarrow> AutomationEvent list" where
  "previousEvents t evs = rev (filter (\<lambda>e. time e \<le> t) evs)"

definition nextEvent :: "real \<Rightarrow> AutomationEvent list \<Rightarrow> AutomationEvent option" where
  "nextEvent t evs = (case filter (\<lambda>e. t < time e) evs of [] \<Rightarrow> None | n # _ \<Rightarrow> Some n)"

section \<open>The automation curve evaluator\<close>

text \<open>
  Modelled from the spec: the interpolation rules of section 4.2. A query time outside the
  ramp's interval is clamped to the nearer endpoint; an exponential ramp whose endpoints
  are zero or differ in sign falls back to the linear one.
\<close>

definition linearInterpolate :: "real \<Rightarrow> real \<Rightarrow> real \<Rightarrow> real \<Rightarrow> real \<Rightarrow> real" where
  "linearInterpolate t0 v0 t1 v1 t =
     (let u = max t0 (min t1 t) in v0 + (v1 - v0) * ((u - t0) / (t1 - t0)))"

definition exponentialUndefined :: "real \<Rightarrow> real \<Rightarrow> bool" where
  "exponentialUndefined v0 v1 \<longleftrightarrow> v0 = 0 \<or> v1 = 0 \<or> (v0 < 0) \<noteq> (v1 < 0)"

definition exponentialInterpolate :: "real \<Rightarrow> real \<Rightarrow> real \<Rightarrow> real \<Rightarrow> real \<Rightarrow> real" where
  "exponentialInterpolate t0 v0 t1 v1 t =
     (if exponentialUndefined v0 v1 then linearInterpolate t0 v0 t1 v1 t
      else let u = max t0 (min t1 t) in v0 * (v1 / v0) powr ((u - t0) / (t1 - t0)))"

text \<open>
  Modelled from the spec: the value at \<open>t\<close> when no ramp is pending, from the events at or
  before \<open>t\<close>, latest first. A value event or a finished ramp holds its value; a target event
  approaches its target from the value the schedule had on arrival at its start time; with no
  event the static initial value is returned.
\<close>

fun settled :: "real \<Rightarrow> AutomationEvent list \<Rightarrow> real \<Rightarrow> real" where
  "settled init [] t = init"
| "settled init (SetValue t0 v # earlier) t = v"
| "settled init (LinearRamp t0 v # earlier) t = v"
| "settled init (ExponentialRamp t0 v # earlier) t = v"
| "settled init (SetTarget t0 target tau # earlier) t =
     target + (settled init earlier t0 - target) * exp (- (t - t0) / tau)"
| "settled init (CurveEvent t0 c d s # earlier) t = sampleCurve c d s (t - t0)"

text \<open>
  Modelled from the spec: evaluate of section 4.2, before clamping.
\<close>

definition evaluate :: "real \<Rightarrow> AutomationEvent list \<Rightarrow> real \<Rightarrow> real" where
  "evaluate init evs t =
     (case previousEvents t evs of
        [] \<Rightarrow> init
      | prev # earlier \<Rightarrow>
          (case nextEvent t evs of
             Some (LinearRamp t1 v1) \<Rightarrow> linearInterpolate (time prev) (startValue prev) t1 v1 t
           | Some (ExponentialRamp t1 v1) \<Rightarrow>
               exponentialInterpolate (time prev) (startValue prev) t1 v1 t
           | _ \<Rightarrow> settled init (prev # earlier) t))"

text \<open>
  Modelled from the spec: cancelFrom of section 4.1. Every event at or after \<open>t\<close> is removed.
  A ramp that was under way at \<open>t\<close> is cut off there: it now ends at \<open>t\<close> on the value it had
  reached, so the curve before \<open>t\<close> is unchanged and the value is held afterwards. An
  open-ended target approach is cut off by a hold of the value reached at \<open>t\<close>.
\<close>

definition firstFrom :: "real \<Rightarrow> AutomationEvent list \<Rightarrow> AutomationEvent option" where
  "firstFrom t evs = (case filter (\<lambda>e. t \<le> time e) evs of [] \<Rightarrow> None | n # _ \<Rightarrow> Some n)"

definition cancelFrom :: "real \<Rightarrow> real \<Rightarrow> AutomationEvent list \<Rightarrow> AutomationEvent list" where
  "cancelFrom t init evs =
     (let kept = filter (\<lambda>e. time e < t) evs in
      case rev kept of
        [] \<Rightarrow> kept
      | prev # earlier \<Rightarrow>
          (case firstFrom t evs of
             Some (LinearRamp t1 v1) \<Rightarrow>
               kept @ [LinearRamp t (linearInterpolate (time prev) (startValue prev) t1 v1 t)]
           | Some (ExponentialRamp t1 v1) \<Rightarrow>
               kept @ [if exponentialUndefined (startValue prev) v1
                       then LinearRamp t (linearInterpolate (time prev) (startValue prev) t1 v1 t)
                       else ExponentialRamp t
                              (exponentialInterpolate (time prev) (startValue prev) t1 v1 t)]
           | _ \<Rightarrow>
               (case prev of
                  SetTarget t0 target tau \<Rightarrow> kept @ [SetValue t (settled init (prev # earlier) t)]
                | _ \<Rightarrow> kept)))"

section \<open>Parameters\<close>

text \<open>
  Modelled from the spec: the schedulable state of a parameter (section 3): its timeline, its
  static initial value and its clamp bounds (\<open>None\<close> for a bound that is not finite). A native
  AudioParam is such a state; a \<open>Param\<close> wraps one (ToneConstantSource.js hands the native
  offset to \<open>new Param\<close>) and adds the \<open>overridden\<close> flag.
\<close>

record AudioParam =
  events :: "AutomationEvent list"
  initialValue :: real
  minValue :: "real option"
  maxValue :: "real option"

record Param =
  param :: AudioParam
  overridden :: bool

definition inRange :: "AudioParam \<Rightarrow> real \<Rightarrow> bool" where
  "inRange p v \<longleftrightarrow>
     (case minValue p of None \<Rightarrow> True | Some lo \<Rightarrow> lo \<le> v) \<and>
     (case maxValue p of None \<Rightarrow> True | Some hi \<Rightarrow> v \<le> hi)"

definition clamp :: "AudioParam \<Rightarrow> real \<Rightarrow> real" where
  "clamp p v =
     (let w = (case maxValue p of None \<Rightarrow> v | Some hi \<Rightarrow> min hi v)
      in case minValue p of None \<Rightarrow> w | Some lo \<Rightarrow> max lo w)"

text \<open>
  Modelled from the spec: the scheduling operations of section 4.3. Each inserts one event and
  fails with RangeError when the value is outside the bounds or the time constant or duration
  is not positive (sections 4.3 and 7: raised at schedule time). No insertion is treated as an
  unresolvable ordering conflict.
\<close>

definition setValueAtTime :: "real \<Rightarrow> real \<Rightarrow> AudioParam \<Rightarrow> error + AudioParam" where
  "setValueAtTime v t p =
     (if inRange p v then Inr (p\<lparr>events := insertEvent (SetValue t v) (events p)\<rparr>)
      else Inl RangeError)"

definition linearRampToValueAtTime :: "real \<Rightarrow> real \<Rightarrow> AudioParam \<Rightarrow> error + AudioParam" where
  "linearRampToValueAtTime v t p =
     (if inRange p v then Inr (p\<lparr>events := insertEvent (LinearRamp t v) (events p)\<rparr>)
      else Inl RangeError)"

definition exponentialRampToValueAtTime :: "real \<Rightarrow> real \<Rightarrow> AudioParam \<Rightarrow> error + AudioParam" where
  "exponentialRampToValueAtTime v t p =
     (if inRange p v then Inr (p\<lparr>events := insertEvent (ExponentialRamp t v) (events p)\<rparr>)
      else Inl RangeError)"


definition setValueCurveAtTime ::
  "real list \<Rightarrow> real \<Rightarrow> real \<Rightarrow> real \<Rightarrow> AudioParam \<Rightarrow> error + AudioParam" where
  "setValueCurveAtTime vs startTime d s p =
     (if list_all (inRange p) vs \<and> 0 < d
      then Inr (p\<lparr>events := insertEvent (CurveEvent startTime vs d s) (events p)\<rparr>)
      else Inl RangeError)"

definition cancelScheduledValues :: "real \<Rightarrow> AudioParam \<Rightarrow> AudioParam" where
  "cancelScheduledValues t p = p\<lparr>events := cancelFrom t (initialValue p) (events p)\<rparr>"

definition getValueAtTime :: "real \<Rightarrow> AudioParam \<Rightarrow> real" where
  "getValueAtTime t p = clamp p (evaluate (initialValue p) (events p) t)"

section \<open>Objects and the heap\<close>

text \<open>
  Destinations are compared by identity and a Signal forwards its calls to the Param it owns,
  so objects live in a store. A reference names a Tone \<open>Param\<close>, a native AudioParam, a
  \<open>Signal\<close>, or any other audio node (a gain, a SignalOperator, ...). Every address of the
  store holds an object; constructing one initialises the object at an address.
\<close>

datatype ref = ParamRef nat | AudioParamRef nat | SignalRef nat | NodeRef nat

text \<open>
  ToneConstantSource.js: the native source exists from construction unless the context is
  suspended; \<open>offset\<close> is the Param made by the constructor. \<open>start\<close> hands its time to
  \<open>_startGain\<close> and, if the native source exists, to the native \<open>start\<close>; both calls are
  recorded with the time they received.
\<close>

record ToneConstantSource =
  offset :: nat
  hasSource :: bool
  gainStart :: "real option"
  sourceStart :: "real option"

record Signal =
  override :: bool
  sigParam :: nat
  constantSource :: ToneConstantSource

text \<open>
  The records kept by \<open>connectedSignals\<close> (Signal.js, lines 223 to 228).
\<close>

record Connection =
  destination :: ref
  outputNum :: nat
  inputNum :: nat
  previousValue :: real

text \<open>
  The calls made to \<open>connect\<close> and \<open>disconnect\<close> of ToneAudioNode.js, with their arguments
  as passed (\<open>None\<close> is \<open>undefined\<close>).
\<close>

datatype wire =
    Connect ref ref "nat option" "nat option"
  | Disconnect ref "ref option" "nat option" "nat option"

record heap =
  params :: "nat \<Rightarrow> Param"
  audioParams :: "nat \<Rightarrow> AudioParam"
  signals :: "nat \<Rightarrow> Signal"
  connectedSignals :: "ref \<Rightarrow> Connection list option"
  wiring :: "wire list"
  now :: real

type_synonym outcome = "(error \<times> heap) + heap"

text \<open>
  The schedulable state a destination's scheduling calls act on: a Param's own, a native
  AudioParam itself, and for a Signal that of \<open>this._param\<close> (Signal.js, lines 83 to 175:
  every method forwards to \<open>this._param\<close>). Another node has no such methods; the code never
  calls them on one.
\<close>

definition destinationParam :: "heap \<Rightarrow> ref \<Rightarrow> AudioParam" where
  "destinationParam h d =
     (case d of
        ParamRef p \<Rightarrow> param (params h p)
      | AudioParamRef a \<Rightarrow> audioParams h a
      | SignalRef s \<Rightarrow> param (params h (sigParam (signals h s)))
      | NodeRef n \<Rightarrow> \<lparr>events = [], initialValue = 0, minValue = None, maxValue = None\<rparr>)"

definition updateParam :: "ref \<Rightarrow> AudioParam \<Rightarrow> heap \<Rightarrow> heap" where
  "updateParam d a h =
     (case d of
        ParamRef p \<Rightarrow> h\<lparr>params := (params h)(p := (params h p)\<lparr>param := a\<rparr>)\<rparr>
      | AudioParamRef n \<Rightarrow> h\<lparr>audioParams := (audioParams h)(n := a)\<rparr>
      | SignalRef s \<Rightarrow>
          h\<lparr>params := (params h)(sigParam (signals h s) :=
                (params h (sigParam (signals h s)))\<lparr>param := a\<rparr>)\<rparr>
      | NodeRef n \<Rightarrow> h)"

text \<open>
  Modelled from the spec: the \<open>value\<close> property of section 4.3 (Param.js is missing). Reading
  it evaluates at the current time; assigning it is \<open>setValueAtTime(value, now)\<close> and cancels
  nothing.
\<close>

definition getValue :: "heap \<Rightarrow> ref \<Rightarrow> real" where
  "getValue h d = getValueAtTime (now h) (destinationParam h d)"

definition callSetValueAtTime :: "real \<Rightarrow> real \<Rightarrow> ref \<Rightarrow> heap \<Rightarrow> outcome" where
  "callSetValueAtTime v t d h =
     (case setValueAtTime v t (destinationParam h d) of
        Inl e \<Rightarrow> Inl (e, h)
      | Inr a \<Rightarrow> Inr (updateParam d a h))"

definition setValue :: "real \<Rightarrow> ref \<Rightarrow> heap \<Rightarrow> outcome" where
  "setValue v d h = callSetValueAtTime v (now h) d h"

definition callCancelScheduledValues :: "real \<Rightarrow> ref \<Rightarrow> heap \<Rightarrow> heap" where
  "callCancelScheduledValues t d h =
     updateParam d (cancelScheduledValues t (destinationParam h d)) h"

definition callLinearRampToValueAtTime :: "real \<Rightarrow> real \<Rightarrow> ref \<Rightarrow> heap \<Rightarrow> outcome" where
  "callLinearRampToValueAtTime v t d h =
     (case linearRampToValueAtTime v t (destinationParam h d) of
        Inl e \<Rightarrow> Inl (e, h)
      | Inr a \<Rightarrow> Inr (updateParam d a h))"


definition callGetValueAtTime :: "real \<Rightarrow> ref \<Rightarrow> heap \<Rightarrow> real" where
  "callGetValueAtTime t d h = getValueAtTime t (destinationParam h d)"

text \<open>
  The \<open>overridden\<close> property: a Param's own flag; a Signal's setter writes the flag of
  \<open>this._param\<close> (Signal.js, lines 170 to 175). Signal.js assigns it only to a Signal or a
  Param.
\<close>

definition setOverridden :: "bool \<Rightarrow> ref \<Rightarrow> heap \<Rightarrow> heap" where
  "setOverridden b d h =
     (case d of
        ParamRef p \<Rightarrow> h\<lparr>params := (params h)(p := (params h p)\<lparr>overridden := b\<rparr>)\<rparr>
      | SignalRef s \<Rightarrow>
          h\<lparr>params := (params h)(sigParam (signals h s) :=
                (params h (sigParam (signals h s)))\<lparr>overridden := b\<rparr>)\<rparr>
      | _ \<Rightarrow> h)"

definition getOverridden :: "heap \<Rightarrow> ref \<Rightarrow> bool" where
  "getOverridden h d =
     (case d of
        ParamRef p \<Rightarrow> overridden (params h p)
      | SignalRef s \<Rightarrow> overridden (params h (sigParam (signals h s)))
      | _ \<Rightarrow> False)"

section \<open>The methods of Signal\<close>

text \<open>
  Signal.js, lines 83 to 157: each method calls the method of the same name on \<open>this._param\<close>.
\<close>

definition Signal_setValueAtTime :: "real \<Rightarrow> real \<Rightarrow> nat \<Rightarrow> heap \<Rightarrow> outcome" where
  "Signal_setValueAtTime v t s h = callSetValueAtTime v t (SignalRef s) h"

definition Signal_getValueAtTime :: "real \<Rightarrow> nat \<Rightarrow> heap \<Rightarrow> real" where
  "Signal_getValueAtTime t s h = callGetValueAtTime t (SignalRef s) h"

definition Signal_linearRampToValueAtTime :: "real \<Rightarrow> real \<Rightarrow> nat \<Rightarrow> heap \<Rightarrow> outcome" where
  "Signal_linearRampToValueAtTime v t s h = callLinearRampToValueAtTime v t (SignalRef s) h"


definition Signal_cancelScheduledValues :: "real \<Rightarrow> nat \<Rightarrow> heap \<Rightarrow> heap" where
  "Signal_cancelScheduledValues t s h = callCancelScheduledValues t (SignalRef s) h"

definition Signal_value :: "nat \<Rightarrow> heap \<Rightarrow> real" where
  "Signal_value s h = getValue h (SignalRef s)"

definition Signal_set_value :: "real \<Rightarrow> nat \<Rightarrow> heap \<Rightarrow> outcome" where
  "Signal_set_value v s h = setValue v (SignalRef s) h"

section \<open>Connecting and disconnecting signals\<close>

text \<open>
  Modelled from the spec: the underlying graph connection and disconnection of section 4.4
  (\<open>connect\<close> and \<open>disconnect\<close> of ToneAudioNode.js are missing). The wiring itself is outside
  the automation core; each call is recorded.
\<close>

definition connect :: "ref \<Rightarrow> ref \<Rightarrow> nat option \<Rightarrow> nat option \<Rightarrow> heap \<Rightarrow> outcome" where
  "connect signal dest outN inN h = Inr (h\<lparr>wiring := wiring h @ [Connect signal dest outN inN]\<rparr>)"

definition disconnect :: "ref \<Rightarrow> ref option \<Rightarrow> nat option \<Rightarrow> nat option \<Rightarrow> heap \<Rightarrow> outcome" where
  "disconnect signal dest outN inN h =
     Inr (h\<lparr>wiring := wiring h @ [Disconnect signal dest outN inN]\<rparr>)"

text \<open>
  The guard of connectSignal (Signal.js, lines 207 to 209) and the test that decides whether
  \<open>overridden\<close> is assigned (lines 216 and 259).
\<close>

definition isOverridable :: "heap \<Rightarrow> ref \<Rightarrow> bool" where
  "isOverridable h d =
     (case d of
        ParamRef p \<Rightarrow> True
      | AudioParamRef a \<Rightarrow> True
      | SignalRef s \<Rightarrow> override (signals h s)
      | NodeRef n \<Rightarrow> False)"

definition isSignalOrParam :: "ref \<Rightarrow> bool" where
  "isSignalOrParam d = (case d of SignalRef s \<Rightarrow> True | ParamRef p \<Rightarrow> True | _ \<Rightarrow> False)"

definition orZero :: "nat option \<Rightarrow> nat" where
  "orZero n = (case n of None \<Rightarrow> 0 | Some k \<Rightarrow> k)"

text \<open>
  connectSignal, Signal.js lines 205 to 231. Nothing catches an error raised by
  \<open>destination.setValueAtTime(0, 0)\<close> (line 214): the lines after it are then not executed,
  and the caller sees the error and the store as the cancellation left it.
\<close>

definition connectSignal :: "ref \<Rightarrow> ref \<Rightarrow> nat option \<Rightarrow> nat option \<Rightarrow> heap \<Rightarrow> outcome" where
  "connectSignal signal dest outN inN h =
     (if isOverridable h dest then
        (let prev = getValue h dest;
             h1 = callCancelScheduledValues 0 dest h
         in case callSetValueAtTime 0 0 dest h1 of
              Inl err \<Rightarrow> Inl err
            | Inr h2 \<Rightarrow>
                (let h3 = (if isSignalOrParam dest then setOverridden True dest h2 else h2);
                     h4 = (if connectedSignals h3 signal = None
                           then h3\<lparr>connectedSignals := (connectedSignals h3)(signal \<mapsto> [])\<rparr>
                           else h3);
                     h5 = (case connectedSignals h4 signal of
                             None \<Rightarrow> h4
                           | Some cs \<Rightarrow>
                               h4\<lparr>connectedSignals := (connectedSignals h4)(signal \<mapsto>
                                     cs @ [\<lparr>destination = dest, outputNum = orZero outN,
                                            inputNum = orZero inN, previousValue = prev\<rparr>])\<rparr>)
                 in connect signal dest outN inN h5))
      else connect signal dest outN inN h)"

text \<open>
  The filter of disconnectSignal (lines 248 to 252) and its \<open>forEach\<close> (lines 258 to 264).
\<close>

definition matches :: "ref \<Rightarrow> nat option \<Rightarrow> nat option \<Rightarrow> Connection \<Rightarrow> bool" where
  "matches dest outN inN conn \<longleftrightarrow>
     destination conn = dest \<and>
     (outN = None \<or> Some (outputNum conn) = outN) \<and>
     (inN = None \<or> Some (inputNum conn) = inN)"

fun restoreAll :: "Connection list \<Rightarrow> heap \<Rightarrow> outcome" where
  "restoreAll [] h = Inr h"
| "restoreAll (c # cs) h =
     (let h1 = (if isSignalOrParam (destination c)
                then setOverridden False (destination c) h else h)
      in case callSetValueAtTime (previousValue c) 0 (destination c) h1 of
           Inl err \<Rightarrow> Inl err
         | Inr h2 \<Rightarrow> restoreAll cs h2)"

text \<open>
  disconnectSignal, Signal.js lines 240 to 272: its guard (lines 241 to 244), the records it
  selects (lines 246 to 253) and the function itself. The thrown
  \<open>Error("Not connected to destination node")\<close> is the specification's NotConnectedError.
  Line 267 reads the source's list again after the loop; the loop does not write
  \<open>connectedSignals\<close>, so the list is the one read at line 246.
\<close>

definition disconnectGuard :: "heap \<Rightarrow> ref option \<Rightarrow> bool" where
  "disconnectGuard h dest = (case dest of None \<Rightarrow> True | Some d \<Rightarrow> isOverridable h d)"

definition selectConnections ::
  "ref option \<Rightarrow> nat option \<Rightarrow> nat option \<Rightarrow> Connection list \<Rightarrow> Connection list" where
  "selectConnections dest outN inN stored =
     (case dest of None \<Rightarrow> stored | Some d \<Rightarrow> filter (matches d outN inN) stored)"

definition disconnectSignal ::
  "ref \<Rightarrow> ref option \<Rightarrow> nat option \<Rightarrow> nat option \<Rightarrow> heap \<Rightarrow> outcome" where
  "disconnectSignal signal dest outN inN h =
     (if disconnectGuard h dest then
        (case connectedSignals h signal of
           None \<Rightarrow> disconnect signal dest outN inN h
         | Some stored \<Rightarrow>
             (let connections = selectConnections dest outN inN stored
              in if connections = [] then Inl (NotConnectedError, h)
                 else (case restoreAll connections h of
                         Inl err \<Rightarrow> Inl err
                       | Inr h1 \<Rightarrow>
                           (case connectedSignals h1 signal of
                              None \<Rightarrow> disconnect signal dest outN inN h1
                            | Some cs \<Rightarrow>
                                disconnect signal dest outN inN
                                  (h1\<lparr>connectedSignals := (connectedSignals h1)(signal \<mapsto>
                                        filter (\<lambda>conn. conn \<notin> set connections) cs)\<rparr>)))))
      else disconnect signal dest outN inN h)"

text \<open>
  The store one iteration of that \<open>forEach\<close> leaves when the snapshot is within the bounds of
  its destination.
\<close>

definition restoreStep :: "Connection \<Rightarrow> heap \<Rightarrow> heap" where
  "restoreStep c h =
     updateParam (destination c)
       ((destinationParam h (destination c))
          \<lparr>events := insertEvent (SetValue 0 (previousValue c))
                       (events (destinationParam h (destination c)))\<rparr>)
       (setOverridden False (destination c) h)"

section \<open>Construction\<close>

text \<open>
  Modelled from the spec: a parameter is created with an initial value and its range
  configuration, an empty timeline and \<open>overridden\<close> unset (section 3; the constructor of
  Param.js is missing).
\<close>

definition newParam :: "real \<Rightarrow> real option \<Rightarrow> real option \<Rightarrow> Param" where
  "newParam v lo hi =
     \<lparr>param = \<lparr>events = [], initialValue = v, minValue = lo, maxValue = hi\<rparr>,
      overridden = False\<rparr>"

text \<open>
  The options the Signal constructor reads (part of SignalOptions in Signal.d.ts; units and
  convert belong to the unit conversion) and their defaults (Signal.js, lines 51 to 57).
\<close>

record SignalOptions =
  optValue :: real
  optMinValue :: "real option"
  optMaxValue :: "real option"

definition Signal_getDefaults :: SignalOptions where
  "Signal_getDefaults = \<lparr>optValue = 0, optMinValue = None, optMaxValue = None\<rparr>"

text \<open>
  The constructor and \<open>start\<close> of ToneConstantSource.js (lines 11 to 51 and 63 to 70). The
  Param is allocated at the given address; \<open>isSuspended\<close> is the state of the audio context.
  \<open>toSeconds\<close> of a number of seconds is that number.
\<close>

definition ToneConstantSource_new ::
  "real \<Rightarrow> real option \<Rightarrow> real option \<Rightarrow> bool \<Rightarrow> nat \<Rightarrow> heap \<Rightarrow> ToneConstantSource \<times> heap" where
  "ToneConstantSource_new off lo hi isSuspended addr h =
     (\<lparr>offset = addr, hasSource = \<not> isSuspended, gainStart = None, sourceStart = None\<rparr>,
      h\<lparr>params := (params h)(addr := newParam off lo hi)\<rparr>)"

definition ToneConstantSource_start :: "real \<Rightarrow> ToneConstantSource \<Rightarrow> ToneConstantSource" where
  "ToneConstantSource_start t cs =
     cs\<lparr>gainStart := Some t,
        sourceStart := (if hasSource cs then Some t else sourceStart cs)\<rparr>"

text \<open>The constructor of Signal (Signal.js, lines 28 to 49), allocating the Signal at \<open>sid\<close>.\<close>

definition Signal_new :: "SignalOptions \<Rightarrow> bool \<Rightarrow> nat \<Rightarrow> nat \<Rightarrow> heap \<Rightarrow> heap" where
  "Signal_new options isSuspended sid addr h =
     (case ToneConstantSource_new (optValue options) (optMinValue options) (optMaxValue options)
             isSuspended addr h of
        (cs, h1) \<Rightarrow>
          (let cs1 = ToneConstantSource_start 0 cs
           in h1\<lparr>signals := (signals h1)(sid :=
                   \<lparr>override = True, sigParam = offset cs1, constantSource = cs1\<rparr>)\<rparr>))"

section \<open>Sequences of operations\<close>

text \<open>
  What a caller observes of a call: the error raised, if any, and the store the call leaves
  behind (an exception keeps the mutations made before it was thrown).
\<close>

definition raised :: "outcome \<Rightarrow> error option" where
  "raised r = (case r of Inl (e, h) \<Rightarrow> Some e | Inr h \<Rightarrow> None)"

definition heapAfter :: "outcome \<Rightarrow> heap" where
  "heapAfter r = (case r of Inl (e, h) \<Rightarrow> h | Inr h \<Rightarrow> h)"

datatype operation =
    ConnectOp ref ref "nat option" "nat option"
  | DisconnectOp ref "ref option" "nat option" "nat option"

fun perform :: "operation \<Rightarrow> heap \<Rightarrow> heap" where
  "perform (ConnectOp signal dest outN inN) h = heapAfter (connectSignal signal dest outN inN h)"
| "perform (DisconnectOp signal dest outN inN) h =
     heapAfter (disconnectSignal signal dest outN inN h)"

fun run :: "operation list \<Rightarrow> heap \<Rightarrow> heap" where
  "run [] h = h"
| "run (op # ops) h = run ops (perform op h)"

text \<open>
  The Param whose flag and schedule a destination stands for: a Signal stands for the Param
  it owns.
\<close>

definition paramOf :: "heap \<Rightarrow> ref \<Rightarrow> ref" where
  "paramOf h d = (case d of SignalRef s \<Rightarrow> ParamRef (sigParam (signals h s)) | _ \<Rightarrow> d)"

text \<open>The records a source holds (none before its first overriding connection).\<close>

definition recordsOf :: "heap \<Rightarrow> ref \<Rightarrow> Connection list" where
  "recordsOf h signal = (case connectedSignals h signal of None \<Rightarrow> [] | Some cs \<Rightarrow> cs)"

text \<open>
  The two directions of the override invariant of section 4.4: every overridden Param is the
  target of a live record, and every live record targets an overridden destination.
\<close>

definition overriddenHasRecord :: "heap \<Rightarrow> bool" where
  "overriddenHasRecord h \<longleftrightarrow>
     (\<forall>p. overridden (params h p) \<longrightarrow>
          (\<exists>signal c. c \<in> set (recordsOf h signal) \<and> paramOf h (destination c) = ParamRef p))"

definition recordHasOverridden :: "heap \<Rightarrow> bool" where
  "recordHasOverridden h \<longleftrightarrow>
     (\<forall>signal c. c \<in> set (recordsOf h signal) \<longrightarrow> isSignalOrParam (destination c) \<longrightarrow>
          getOverridden h (destination c))"

section \<open>Example stores\<close>

text \<open>
  A store of unbounded parameters with initial value 5, empty timelines, no flag set and no
  connection made; Signal \<open>s\<close> owns Param \<open>s\<close>. In \<open>boundedHeap\<close>, Signal 0 has been constructed
  anew with initial value 1 and \<open>minValue\<close> 1.
\<close>

definition emptyHeap :: heap where
  "emptyHeap =
     \<lparr>params = (\<lambda>n. newParam 5 None None),
      audioParams = (\<lambda>n. \<lparr>events = [], initialValue = 5, minValue = None, maxValue = None\<rparr>),
      signals = (\<lambda>s. \<lparr>override = True, sigParam = s,
                       constantSource = \<lparr>offset = s, hasSource = True,
                                         gainStart = Some 0, sourceStart = Some 0\<rparr>\<rparr>),
      connectedSignals = (\<lambda>r. None),
      wiring = [],
      now = 0\<rparr>"

definition boundedHeap :: heap where
  "boundedHeap =
     Signal_new \<lparr>optValue = 1, optMinValue = Some 1, optMaxValue = None\<rparr> False 0 0 emptyHeap"

text \<open>The example store after Signal 0 has scheduled a ramp to 10 ending at time 2.\<close>

definition rampHeap :: heap where
  "rampHeap = heapAfter (Signal_linearRampToValueAtTime 10 2 0 emptyHeap)"

text \<open>
  The example store after Signal 0 has been constructed anew with initial value 1 and the
  bounds 0 and 1.
\<close>

definition unitHeap :: heap where
  "unitHeap =
     Signal_new \<lparr>optValue = 1, optMinValue = Some 0, optMaxValue = Some 1\<rparr> False 0 0 emptyHeap"

text \<open>
  The example store after Signal 2 has been connected to Signal 0 with no indices
  given.
\<close>

definition connectedHeap :: heap where
  "connectedHeap = heapAfter (connectSignal (SignalRef 2) (SignalRef 0) None None emptyHeap)"

text \<open>
  The example store after Signal 0 has been constructed anew in a suspended audio context,
  with initial value 1 and \<open>minValue\<close> 1.
\<close>

definition suspendedHeap :: heap where
  "suspendedHeap =
     Signal_new \<lparr>optValue = 1, optMinValue = Some 1, optMaxValue = None\<rparr> True 0 0 emptyHeap"


text \<open>
  The example store after Signal 2 has been wired to the plain node 0, which does not pass the
  guard of connectSignal.
\<close>

definition wiredHeap :: heap where
  "wiredHeap = heapAfter (connectSignal (SignalRef 2) (NodeRef 0) None None emptyHeap)"

text \<open>
  The example store after Signal 2 has been connected to Signal 0 a second time; it holds two
  records on that destination, the first with the snapshot 5 and the second with the
  snapshot 0.
\<close>

definition doubledHeap :: heap where
  "doubledHeap = heapAfter (connectSignal (SignalRef 2) (SignalRef 0) None None connectedHeap)"


section \<open>Properties of the timeline and the evaluator\<close>


lemma clamp_inRange: "inRange p v \<Longrightarrow> clamp p v = v"
  by (auto simp: inRange_def clamp_def split: option.splits)

lemma clamp_between:
  "inRange p a \<Longrightarrow> inRange p b \<Longrightarrow> a \<le> v \<Longrightarrow> v \<le> b \<Longrightarrow> clamp p v = v"
  by (auto simp: inRange_def clamp_def split: option.splits)

lemma inRange_events [simp]: "inRange (p\<lparr>events := evs\<rparr>) v = inRange p v"
  by (simp add: inRange_def)

lemma clamp_events [simp]: "clamp (p\<lparr>events := evs\<rparr>) v = clamp p v"
  by (simp add: clamp_def)

lemma filter_le_insertEvent:
  "filter (\<lambda>e. time e \<le> time x) (insertEvent x evs) = filter (\<lambda>e. time e < time x) evs @ [x]"
proof -
  have a: "filter (\<lambda>e. time e \<le> time x) (filter (\<lambda>e. time e < time x) evs)
             = filter (\<lambda>e. time e < time x) evs"
    by (induction evs) auto
  have b: "filter (\<lambda>e. time e \<le> time x) (filter (\<lambda>e. time x < time e) evs) = []"
    by (induction evs) auto
  show ?thesis unfolding insertEvent_def filter_append a b by simp
qed

lemma filter_gt_insertEvent:
  "filter (\<lambda>e. time x < time e) (insertEvent x evs) = filter (\<lambda>e. time x < time e) evs"
proof -
  have a: "filter (\<lambda>e. time x < time e) (filter (\<lambda>e. time e < time x) evs) = []"
    by (induction evs) auto
  have b: "filter (\<lambda>e. time x < time e) (filter (\<lambda>e. time x < time e) evs)
             = filter (\<lambda>e. time x < time e) evs"
    by (induction evs) auto
  show ?thesis unfolding insertEvent_def filter_append a b by simp
qed

lemma previousEvents_insertEvent:
  "previousEvents (time x) (insertEvent x evs) = x # rev (filter (\<lambda>e. time e < time x) evs)"
  by (simp add: previousEvents_def filter_le_insertEvent)

lemma nextEvent_insertEvent: "nextEvent (time x) (insertEvent x evs) = nextEvent (time x) evs"
  by (simp add: nextEvent_def filter_gt_insertEvent)

lemma nextEvent_later: "nextEvent t evs = Some n \<Longrightarrow> t < time n"
proof -
  assume "nextEvent t evs = Some n"
  then obtain rest where "filter (\<lambda>e. t < time e) evs = n # rest"
    by (auto simp: nextEvent_def split: list.splits)
  then have "n \<in> set (filter (\<lambda>e. t < time e) evs)"
    by (simp only: list.set_intros)
  then show ?thesis by simp
qed

lemma linearInterpolate_start: "t0 \<le> t1 \<Longrightarrow> linearInterpolate t0 v0 t1 v1 t0 = v0"
  by (simp add: linearInterpolate_def)

lemma exponentialInterpolate_start: "t0 \<le> t1 \<Longrightarrow> exponentialInterpolate t0 v0 t1 v1 t0 = v0"
  by (auto simp: exponentialInterpolate_def linearInterpolate_start exponentialUndefined_def)

lemma evaluate_insert_SetValue: "evaluate init (insertEvent (SetValue t v) evs) t = v"
proof -
  let ?x = "SetValue t v"
  have p: "previousEvents t (insertEvent ?x evs) = ?x # rev (filter (\<lambda>e. time e < t) evs)"
    using previousEvents_insertEvent [of ?x evs] by simp
  have n: "nextEvent t (insertEvent ?x evs) = nextEvent t evs"
    using nextEvent_insertEvent [of ?x evs] by simp
  show ?thesis
  proof (cases "nextEvent t evs")
    case None
    then show ?thesis by (simp add: evaluate_def p n)
  next
    case (Some e)
    then have "t < time e" by (rule nextEvent_later)
    then show ?thesis using Some
      by (cases e) (simp_all add: evaluate_def p n linearInterpolate_start
          exponentialInterpolate_start)
  qed
qed

section \<open>Properties of the store\<close>


lemma signals_updateParam [simp]: "signals (updateParam d a h) = signals h"
  by (simp add: updateParam_def split: ref.splits)

lemma connectedSignals_updateParam [simp]:
  "connectedSignals (updateParam d a h) = connectedSignals h"
  by (simp add: updateParam_def split: ref.splits)

lemma wiring_updateParam [simp]: "wiring (updateParam d a h) = wiring h"
  by (simp add: updateParam_def split: ref.splits)

lemma now_updateParam [simp]: "now (updateParam d a h) = now h"
  by (simp add: updateParam_def split: ref.splits)

lemma overridden_updateParam [simp]:
  "overridden (params (updateParam d a h) p) = overridden (params h p)"
  by (simp add: updateParam_def split: ref.splits)

lemma signals_setOverridden [simp]: "signals (setOverridden b d h) = signals h"
  by (simp add: setOverridden_def split: ref.splits)

lemma connectedSignals_setOverridden [simp]:
  "connectedSignals (setOverridden b d h) = connectedSignals h"
  by (simp add: setOverridden_def split: ref.splits)

lemma wiring_setOverridden [simp]: "wiring (setOverridden b d h) = wiring h"
  by (simp add: setOverridden_def split: ref.splits)

lemma now_setOverridden [simp]: "now (setOverridden b d h) = now h"
  by (simp add: setOverridden_def split: ref.splits)

lemma destinationParam_setOverridden [simp]:
  "destinationParam (setOverridden b d h) d' = destinationParam h d'"
  by (simp add: setOverridden_def destinationParam_def split: ref.splits)

lemma paramOf_updateParam [simp]: "paramOf (updateParam d a h) d' = paramOf h d'"
  by (simp add: paramOf_def split: ref.splits)

lemma paramOf_setOverridden [simp]: "paramOf (setOverridden b d h) d' = paramOf h d'"
  by (simp add: paramOf_def split: ref.splits)

lemma isOverridable_updateParam [simp]: "isOverridable (updateParam d a h) d' = isOverridable h d'"
  by (simp add: isOverridable_def split: ref.splits)

lemma isOverridable_setOverridden [simp]:
  "isOverridable (setOverridden b d h) d' = isOverridable h d'"
  by (simp add: isOverridable_def split: ref.splits)

lemma isOverridable_notNode: "isOverridable h d \<Longrightarrow> d \<noteq> NodeRef n"
  by (auto simp: isOverridable_def)

lemma isSignalOrParam_notNode: "isSignalOrParam d \<Longrightarrow> d \<noteq> NodeRef n"
  by (auto simp: isSignalOrParam_def)

lemma destinationParam_updateParam:
  "(\<And>n. d \<noteq> NodeRef n) \<Longrightarrow>
   destinationParam (updateParam d a h) d' =
     (if paramOf h d' = paramOf h d then a else destinationParam h d')"
  by (cases d; cases d')
     (auto simp: destinationParam_def updateParam_def paramOf_def)

lemma destinationParam_updateParam_same:
  "(\<And>n. d \<noteq> NodeRef n) \<Longrightarrow> destinationParam (updateParam d a h) d = a"
  by (simp add: destinationParam_updateParam)

lemma destinationParam_updateParam_Signal [simp]:
  "destinationParam (updateParam (SignalRef s) a h) (SignalRef s) = a"
  by (simp add: destinationParam_updateParam_same)

lemma getOverridden_updateParam [simp]: "getOverridden (updateParam d a h) d' = getOverridden h d'"
  by (cases d') (simp_all add: getOverridden_def)

lemma getOverridden_setOverridden:
  "isSignalOrParam d \<Longrightarrow> isSignalOrParam d' \<Longrightarrow>
   getOverridden (setOverridden b d h) d' =
     (if paramOf h d' = paramOf h d then b else getOverridden h d')"
  by (cases d; cases d')
     (auto simp: getOverridden_def setOverridden_def paramOf_def isSignalOrParam_def)

lemma overridden_setOverridden:
  "isSignalOrParam d \<Longrightarrow>
   overridden (params (setOverridden b d h) p) =
     (if paramOf h d = ParamRef p then b else overridden (params h p))"
  by (cases d) (auto simp: setOverridden_def paramOf_def isSignalOrParam_def)

lemma isOverridable_SignalRef: "isOverridable h (SignalRef s) = override (signals h s)"
  by (simp add: isOverridable_def)

lemma filter_all: "(\<And>e. e \<in> set evs \<Longrightarrow> P e) \<Longrightarrow> filter P evs = evs"
  by (induction evs) auto

lemma filter_none: "(\<And>e. e \<in> set evs \<Longrightarrow> \<not> P e) \<Longrightarrow> filter P evs = []"
  by (induction evs) auto

lemma insertEvent_after_all:
  "(\<And>e. e \<in> set evs \<Longrightarrow> time e < time x) \<Longrightarrow> insertEvent x evs = evs @ [x]"
proof -
  assume a: "\<And>e. e \<in> set evs \<Longrightarrow> time e < time x"
  have "filter (\<lambda>e. time e < time x) evs = evs" using a by (rule filter_all)
  moreover have "filter (\<lambda>e. time x < time e) evs = []"
    by (rule filter_none) (use a in fastforce)
  ultimately show ?thesis by (simp add: insertEvent_def)
qed

lemma cancelFrom_shape:
  "\<exists>extra. cancelFrom t init evs = filter (\<lambda>e. time e < t) evs @ extra \<and>
           (\<forall>e \<in> set extra. time e = t)"
  by (simp add: cancelFrom_def Let_def
      split: list.split option.split AutomationEvent.split)

lemma cancelFrom_times: "e \<in> set (cancelFrom t init evs) \<Longrightarrow> time e \<le> t"
  using cancelFrom_shape [of t init evs] by auto

lemma evaluate_cong:
  "previousEvents t a = previousEvents t b \<Longrightarrow> nextEvent t a = nextEvent t b \<Longrightarrow>
   evaluate init a t = evaluate init b t"
proof -
  assume p: "previousEvents t a = previousEvents t b" and n: "nextEvent t a = nextEvent t b"
  show ?thesis unfolding evaluate_def p n by (rule refl)
qed

text \<open>A schedule with value 5 at time 0 and a ramp to 10 ending at time 2, cancelled from 1.\<close>

lemma ramp_schedule_cancel:
  assumes old: "\<And>e. e \<in> set evs \<Longrightarrow> time e < 0"
  shows "cancelFrom 1 init (evs @ [SetValue 0 5, LinearRamp 2 10])
           = evs @ [SetValue 0 5, LinearRamp 1 (15 / 2)]"
proof -
  have k: "filter (\<lambda>e. time e < 1) evs = evs"
    by (rule filter_all) (use old in fastforce)
  have f: "filter (\<lambda>e. 1 \<le> time e) evs = []"
    by (rule filter_none) (use old in fastforce)
  show ?thesis
    by (simp add: cancelFrom_def firstFrom_def k f linearInterpolate_def)
qed

lemma ramp_schedule_held:
  assumes old: "\<And>e. e \<in> set evs \<Longrightarrow> time e < 0" and t: "1 \<le> t"
  shows "evaluate init (evs @ [SetValue 0 5, LinearRamp 1 (15 / 2)]) t = 15 / 2"
proof -
  have k: "filter (\<lambda>e. time e \<le> t) evs = evs"
    by (rule filter_all) (use old t in fastforce)
  have f: "filter (\<lambda>e. t < time e) evs = []"
    by (rule filter_none) (use old t in fastforce)
  show ?thesis using t
    by (simp add: evaluate_def previousEvents_def nextEvent_def k f)
qed

lemma ramp_schedule_before:
  assumes old: "\<And>e. e \<in> set evs \<Longrightarrow> time e < 0" and t: "t \<le> 1"
  shows "evaluate init (evs @ [SetValue 0 5, LinearRamp 1 (15 / 2)]) t
           = evaluate init (evs @ [SetValue 0 5, LinearRamp 2 10]) t"
proof (cases "t < 0")
  case True
  then have "nextEvent t (evs @ [SetValue 0 5, LinearRamp 1 (15 / 2)])
               = nextEvent t (evs @ [SetValue 0 5, LinearRamp 2 10])"
    by (cases "filter (\<lambda>e. t < time e) evs") (simp_all add: nextEvent_def)
  moreover have "previousEvents t (evs @ [SetValue 0 5, LinearRamp 1 (15 / 2)])
               = previousEvents t (evs @ [SetValue 0 5, LinearRamp 2 10])"
    using True by (simp add: previousEvents_def)
  ultimately show ?thesis by (intro evaluate_cong)
next
  case False
  then have t0: "0 \<le> t" by simp
  have k: "filter (\<lambda>e. time e \<le> t) evs = evs"
    by (rule filter_all) (use old t0 in fastforce)
  have f: "filter (\<lambda>e. t < time e) evs = []"
    by (rule filter_none) (use old t0 in fastforce)
  show ?thesis
  proof (cases "t < 1")
    case True
    then show ?thesis using t0
      by (simp add: evaluate_def previousEvents_def nextEvent_def k f linearInterpolate_def)
  next
    case False
    then have t1: "t = 1" using t by simp
    show ?thesis using k f unfolding t1
      by (simp add: evaluate_def previousEvents_def nextEvent_def linearInterpolate_def)
  qed
qed

lemma callSetValueAtTime_Signal:
  "inRange (destinationParam h (SignalRef s)) v \<Longrightarrow>
   Signal_setValueAtTime v t s h =
     Inr (updateParam (SignalRef s)
           ((destinationParam h (SignalRef s))
              \<lparr>events := insertEvent (SetValue t v) (events (destinationParam h (SignalRef s)))\<rparr>) h)"
  by (simp add: Signal_setValueAtTime_def callSetValueAtTime_def setValueAtTime_def)

lemma callLinearRamp_Signal:
  "inRange (destinationParam h (SignalRef s)) v \<Longrightarrow>
   Signal_linearRampToValueAtTime v t s h =
     Inr (updateParam (SignalRef s)
           ((destinationParam h (SignalRef s))
              \<lparr>events := insertEvent (LinearRamp t v) (events (destinationParam h (SignalRef s)))\<rparr>) h)"
  by (simp add: Signal_linearRampToValueAtTime_def callLinearRampToValueAtTime_def
      linearRampToValueAtTime_def)

lemma insertEvent_member: "x \<in> set (insertEvent x evs)"
  by (simp add: insertEvent_def)


lemma evaluate_all_before:
  assumes "\<And>e. e \<in> set evs \<Longrightarrow> time e \<le> t"
  shows "evaluate init evs t = settled init (rev evs) t"
proof -
  have k: "filter (\<lambda>e. time e \<le> t) evs = evs"
    by (rule filter_all) (use assms in simp)
  have f: "filter (\<lambda>e. t < time e) evs = []"
    by (rule filter_none) (use assms in fastforce)
  have "evaluate init evs t
          = (case rev evs of [] \<Rightarrow> init | prev # earlier \<Rightarrow> settled init (prev # earlier) t)"
    unfolding evaluate_def previousEvents_def nextEvent_def k f by (simp split: list.split)
  then show ?thesis by (cases "rev evs") simp_all
qed

lemma rampHeap_param:
  "destinationParam rampHeap (SignalRef 0)
     = \<lparr>events = [LinearRamp 2 10], initialValue = 5, minValue = None, maxValue = None\<rparr>"
  by (simp add: rampHeap_def Signal_linearRampToValueAtTime_def callLinearRampToValueAtTime_def
      linearRampToValueAtTime_def emptyHeap_def destinationParam_def newParam_def inRange_def
      insertEvent_def heapAfter_def updateParam_def)

lemma rampHeap_now: "now rampHeap = 0"
  by (simp add: rampHeap_def Signal_linearRampToValueAtTime_def callLinearRampToValueAtTime_def
      linearRampToValueAtTime_def emptyHeap_def destinationParam_def newParam_def inRange_def
      heapAfter_def)

section \<open>The store after connectSignal\<close>

lemma updateParam_twice [simp]: "updateParam d a (updateParam d b h) = updateParam d a h"
  by (cases d) (simp_all add: updateParam_def)

lemma setOverridden_other:
  "\<not> isSignalOrParam d \<Longrightarrow> setOverridden b d h = h"
  by (cases d) (simp_all add: setOverridden_def isSignalOrParam_def)

lemma destinationParam_connectedSignals [simp]:
  "destinationParam (h\<lparr>connectedSignals := c\<rparr>) d = destinationParam h d"
  by (simp add: destinationParam_def split: ref.split)

lemma destinationParam_wiring [simp]:
  "destinationParam (h\<lparr>wiring := w\<rparr>) d = destinationParam h d"
  by (simp add: destinationParam_def split: ref.split)

lemma getOverridden_connectedSignals [simp]:
  "getOverridden (h\<lparr>connectedSignals := c\<rparr>) d = getOverridden h d"
  by (simp add: getOverridden_def split: ref.split)

lemma getOverridden_wiring [simp]:
  "getOverridden (h\<lparr>wiring := w\<rparr>) d = getOverridden h d"
  by (simp add: getOverridden_def split: ref.split)

lemma recordsOf_update [simp]:
  "recordsOf (h\<lparr>connectedSignals := (connectedSignals h)(signal \<mapsto> cs)\<rparr>) signal' =
     (if signal' = signal then cs else recordsOf h signal')"
  by (simp add: recordsOf_def)

lemma recordsOf_wiring [simp]: "recordsOf (h\<lparr>wiring := w\<rparr>) signal = recordsOf h signal"
  by (simp add: recordsOf_def)

lemma recordsOf_updateParam [simp]: "recordsOf (updateParam d a h) signal = recordsOf h signal"
  by (simp add: recordsOf_def)

lemma recordsOf_setOverridden [simp]: "recordsOf (setOverridden b d h) signal = recordsOf h signal"
  by (simp add: recordsOf_def)

text \<open>The store a successful overriding connection leaves behind.\<close>

lemma connectSignal_overriding:
  assumes g: "isOverridable h dest" and r: "inRange (destinationParam h dest) 0"
  shows "connectSignal signal dest outN inN h =
     Inr ((setOverridden True dest
            (updateParam dest
               ((destinationParam h dest)
                  \<lparr>events := insertEvent (SetValue 0 0)
                     (cancelFrom 0 (initialValue (destinationParam h dest))
                        (events (destinationParam h dest)))\<rparr>) h))
          \<lparr>connectedSignals := (connectedSignals h)(signal \<mapsto>
               recordsOf h signal @
               [\<lparr>destination = dest, outputNum = orZero outN, inputNum = orZero inN,
                 previousValue = getValue h dest\<rparr>]),
           wiring := wiring h @ [Connect signal dest outN inN]\<rparr>)"
proof -
  have n: "\<And>n. dest \<noteq> NodeRef n" using g by (auto simp: isOverridable_def)
  have c: "destinationParam (callCancelScheduledValues 0 dest h) dest
             = cancelScheduledValues 0 (destinationParam h dest)"
    by (simp add: callCancelScheduledValues_def destinationParam_updateParam_same n)
  have u: "updateParam dest a (callCancelScheduledValues 0 dest h) = updateParam dest a h" for a
    by (simp add: callCancelScheduledValues_def)
  have "callSetValueAtTime 0 0 dest (callCancelScheduledValues 0 dest h) =
      Inr (updateParam dest
               ((cancelScheduledValues 0 (destinationParam h dest))
                  \<lparr>events := insertEvent (SetValue 0 0)
                     (events (cancelScheduledValues 0 (destinationParam h dest)))\<rparr>)
               (callCancelScheduledValues 0 dest h))"
    using r unfolding callSetValueAtTime_def c setValueAtTime_def
    by (simp add: cancelScheduledValues_def)
  then have s: "callSetValueAtTime 0 0 dest (callCancelScheduledValues 0 dest h) =
      Inr (updateParam dest
               ((destinationParam h dest)
                  \<lparr>events := insertEvent (SetValue 0 0)
                     (cancelFrom 0 (initialValue (destinationParam h dest))
                        (events (destinationParam h dest)))\<rparr>) h)"
    unfolding u by (simp add: cancelScheduledValues_def)
  show ?thesis
    using g
    by (cases "isSignalOrParam dest"; cases "connectedSignals h signal")
       (simp_all add: connectSignal_def s Let_def connect_def setOverridden_other recordsOf_def)
qed

lemma connectSignal_rangeError:
  assumes g: "isOverridable h dest" and r: "\<not> inRange (destinationParam h dest) 0"
  shows "connectSignal signal dest outN inN h =
     Inl (RangeError, callCancelScheduledValues 0 dest h)"
proof -
  have n: "\<And>n. dest \<noteq> NodeRef n" using g by (auto simp: isOverridable_def)
  have c: "destinationParam (callCancelScheduledValues 0 dest h) dest
             = cancelScheduledValues 0 (destinationParam h dest)"
    by (simp add: callCancelScheduledValues_def destinationParam_updateParam_same n)
  have "callSetValueAtTime 0 0 dest (callCancelScheduledValues 0 dest h)
          = Inl (RangeError, callCancelScheduledValues 0 dest h)"
    using r unfolding callSetValueAtTime_def c setValueAtTime_def
    by (simp add: cancelScheduledValues_def)
  then show ?thesis using g
    by (simp add: connectSignal_def Let_def)
qed

lemma connectSignal_plain:
  "\<not> isOverridable h dest \<Longrightarrow>
   connectSignal signal dest outN inN h =
     Inr (h\<lparr>wiring := wiring h @ [Connect signal dest outN inN]\<rparr>)"
  by (simp add: connectSignal_def connect_def)

lemma boundedHeap_param:
  "destinationParam boundedHeap (SignalRef 0)
     = \<lparr>events = [], initialValue = 1, minValue = Some 1, maxValue = None\<rparr>"
  by (simp add: boundedHeap_def Signal_new_def ToneConstantSource_new_def
      ToneConstantSource_start_def destinationParam_def newParam_def)

lemma boundedHeap_overridable: "isOverridable boundedHeap (SignalRef 0)"
  by (simp add: boundedHeap_def Signal_new_def ToneConstantSource_new_def
      ToneConstantSource_start_def isOverridable_def)

lemma boundedHeap_fields:
  "wiring boundedHeap = []" "connectedSignals boundedHeap = (\<lambda>r. None)"
  "getOverridden boundedHeap (SignalRef 0) = False"
  by (simp_all add: boundedHeap_def Signal_new_def ToneConstantSource_new_def
      ToneConstantSource_start_def emptyHeap_def getOverridden_def newParam_def)

lemma recordsOf_fresh_update [simp]:
  "recordsOf (h'\<lparr>connectedSignals := (connectedSignals h)(signal \<mapsto> cs)\<rparr>) signal' =
     (if signal' = signal then cs else recordsOf h signal')"
  by (simp add: recordsOf_def)

lemma boundedHeap_records: "recordsOf boundedHeap signal = []"
  by (simp add: recordsOf_def boundedHeap_fields)

lemma getOverridden_callCancel [simp]:
  "getOverridden (callCancelScheduledValues t d h) d' = getOverridden h d'"
  by (simp add: callCancelScheduledValues_def)

lemma wiring_callCancel [simp]: "wiring (callCancelScheduledValues t d h) = wiring h"
  by (simp add: callCancelScheduledValues_def)

lemma recordsOf_callCancel [simp]:
  "recordsOf (callCancelScheduledValues t d h) signal = recordsOf h signal"
  by (simp add: callCancelScheduledValues_def)

section \<open>The restoring loop of disconnectSignal\<close>

lemma callSetValueAtTime_cases:
  "callSetValueAtTime v t d h =
     (if inRange (destinationParam h d) v
      then Inr (updateParam d ((destinationParam h d)
                  \<lparr>events := insertEvent (SetValue t v) (events (destinationParam h d))\<rparr>) h)
      else Inl (RangeError, h))"
  by (simp add: callSetValueAtTime_def setValueAtTime_def)

lemma destinationParam_paramOf:
  "paramOf h d = paramOf h d' \<Longrightarrow> destinationParam h d = destinationParam h d'"
  by (cases d; cases d') (auto simp: paramOf_def destinationParam_def)

lemma paramOf_notNode:
  "paramOf h d = paramOf h d' \<Longrightarrow> (\<And>n. d \<noteq> NodeRef n) \<Longrightarrow> d' \<noteq> NodeRef m"
  by (cases d; cases d') (auto simp: paramOf_def)

lemma inRange_updateParam_events:
  "inRange (destinationParam (updateParam d ((destinationParam h d)\<lparr>events := evs\<rparr>) h) d') x
     = inRange (destinationParam h d') x"
  by (cases d; cases d')
     (auto simp: destinationParam_def updateParam_def inRange_def)

lemma clamp_updateParam_events:
  "clamp (destinationParam (updateParam d ((destinationParam h d)\<lparr>events := evs\<rparr>) h) d') x
     = clamp (destinationParam h d') x"
  by (cases d; cases d')
     (auto simp: destinationParam_def updateParam_def clamp_def)

lemma setOverridden_heapfields [simp]:
  "audioParams (setOverridden b d h) = audioParams h"
  by (simp add: setOverridden_def split: ref.split)

lemma restoreAll_Cons:
  "restoreAll (c # cs) h =
     (if inRange (destinationParam h (destination c)) (previousValue c)
      then restoreAll cs (restoreStep c h)
      else Inl (RangeError, setOverridden False (destination c) h))"
  by (cases "isSignalOrParam (destination c)")
     (simp_all add: callSetValueAtTime_cases restoreStep_def setOverridden_other)

lemma restoreStep_frame [simp]:
  "signals (restoreStep c h) = signals h"
  "connectedSignals (restoreStep c h) = connectedSignals h"
  "wiring (restoreStep c h) = wiring h"
  "now (restoreStep c h) = now h"
  "paramOf (restoreStep c h) d = paramOf h d"
  "recordsOf (restoreStep c h) signal = recordsOf h signal"
  by (simp_all add: restoreStep_def)

lemma inRange_setOverridden [simp]:
  "inRange (destinationParam (setOverridden b d h) d') x = inRange (destinationParam h d') x"
  by simp

lemma inRange_restoreStep [simp]:
  "inRange (destinationParam (restoreStep c h) d) x = inRange (destinationParam h d) x"
proof -
  have "restoreStep c h =
      updateParam (destination c)
       ((destinationParam (setOverridden False (destination c) h) (destination c))
          \<lparr>events := insertEvent (SetValue 0 (previousValue c))
                       (events (destinationParam h (destination c)))\<rparr>)
       (setOverridden False (destination c) h)"
    by (simp add: restoreStep_def)
  then show ?thesis
    by (simp only: inRange_updateParam_events inRange_setOverridden)
qed

lemma overridden_restoreStep:
  "overridden (params (restoreStep c h) p) =
     (overridden (params h p) \<and> paramOf h (destination c) \<noteq> ParamRef p)"
  by (cases "destination c")
     (auto simp: restoreStep_def setOverridden_def paramOf_def)

lemma destinationParam_restoreStep:
  "(\<And>n. destination c \<noteq> NodeRef n) \<Longrightarrow>
   destinationParam (restoreStep c h) d =
     (if paramOf h d = paramOf h (destination c)
      then (destinationParam h (destination c))
             \<lparr>events := insertEvent (SetValue 0 (previousValue c))
                          (events (destinationParam h (destination c)))\<rparr>
      else destinationParam h d)"
  by (simp add: restoreStep_def destinationParam_updateParam)

lemma destinationParam_restoreStep_other:
  "paramOf h d \<noteq> paramOf h (destination c) \<Longrightarrow>
   destinationParam (restoreStep c h) d = destinationParam h d"
  by (cases "destination c"; cases d)
     (auto simp: restoreStep_def destinationParam_def updateParam_def paramOf_def
        setOverridden_def)

declare restoreAll.simps(2) [simp del]

lemma restoreAll_frame:
  "signals (heapAfter (restoreAll cs h)) = signals h \<and>
   connectedSignals (heapAfter (restoreAll cs h)) = connectedSignals h \<and>
   wiring (heapAfter (restoreAll cs h)) = wiring h \<and>
   now (heapAfter (restoreAll cs h)) = now h"
proof (induction cs arbitrary: h)
  case Nil
  then show ?case by (simp add: heapAfter_def)
next
  case (Cons c cs)
  show ?case
  proof (cases "inRange (destinationParam h (destination c)) (previousValue c)")
    case True
    then show ?thesis using Cons [of "restoreStep c h"] by (simp add: restoreAll_Cons)
  next
    case False
    then show ?thesis by (simp add: restoreAll_Cons heapAfter_def)
  qed
qed

lemma restoreAll_raised:
  "raised (restoreAll cs h) = None \<or> raised (restoreAll cs h) = Some RangeError"
proof (induction cs arbitrary: h)
  case Nil
  then show ?case by (simp add: raised_def)
next
  case (Cons c cs)
  then show ?case by (simp add: restoreAll_Cons raised_def)
qed

lemma restoreAll_total:
  "(\<And>c. c \<in> set cs \<Longrightarrow> inRange (destinationParam h (destination c)) (previousValue c)) \<Longrightarrow>
   \<exists>h'. restoreAll cs h = Inr h'"
proof (induction cs arbitrary: h)
  case Nil
  then show ?case by simp
next
  case (Cons c cs)
  have "\<exists>h'. restoreAll cs (restoreStep c h) = Inr h'"
    by (rule Cons.IH) (use Cons.prems in simp)
  then show ?case using Cons.prems by (simp add: restoreAll_Cons)
qed

lemma restoreAll_flags_decrease:
  "overridden (params (heapAfter (restoreAll cs h)) p) \<Longrightarrow> overridden (params h p)"
proof (induction cs arbitrary: h)
  case Nil
  then show ?case by (simp add: heapAfter_def)
next
  case (Cons c cs)
  show ?case
  proof (cases "inRange (destinationParam h (destination c)) (previousValue c)")
    case True
    then have "overridden (params (restoreStep c h) p)"
      using Cons.prems Cons.IH [of "restoreStep c h"] by (simp add: restoreAll_Cons)
    then show ?thesis by (simp add: overridden_restoreStep)
  next
    case False
    then have "overridden (params (setOverridden False (destination c) h) p)"
      using Cons.prems by (simp add: restoreAll_Cons heapAfter_def)
    then show ?thesis
      by (cases "destination c") (auto simp: setOverridden_def split: if_splits)
  qed
qed

lemma restoreAll_flags_cleared:
  "restoreAll cs h = Inr h' \<Longrightarrow> c \<in> set cs \<Longrightarrow> paramOf h (destination c) = ParamRef p \<Longrightarrow>
   \<not> overridden (params h' p)"
proof (induction cs arbitrary: h)
  case Nil
  then show ?case by simp
next
  case (Cons a cs)
  have r: "inRange (destinationParam h (destination a)) (previousValue a)"
    and rest: "restoreAll cs (restoreStep a h) = Inr h'"
    using Cons.prems(1) by (simp_all add: restoreAll_Cons split: if_splits)
  show ?case
  proof (cases "c \<in> set cs")
    case True
    then show ?thesis using Cons.IH [OF rest] Cons.prems(3) by simp
  next
    case False
    then have "c = a" using Cons.prems(2) by simp
    then have "\<not> overridden (params (restoreStep a h) p)"
      using Cons.prems(3) by (simp add: overridden_restoreStep)
    moreover have "heapAfter (restoreAll cs (restoreStep a h)) = h'"
      using rest by (simp add: heapAfter_def)
    ultimately show ?thesis
      using restoreAll_flags_decrease [of cs "restoreStep a h" p] by auto
  qed
qed

lemma restoreAll_untouched:
  "restoreAll cs h = Inr h' \<Longrightarrow>
   (\<And>c. c \<in> set cs \<Longrightarrow> paramOf h (destination c) \<noteq> paramOf h d) \<Longrightarrow>
   destinationParam h' d = destinationParam h d"
proof (induction cs arbitrary: h)
  case Nil
  then show ?case by simp
next
  case (Cons a cs)
  have rest: "restoreAll cs (restoreStep a h) = Inr h'"
    using Cons.prems(1) by (simp_all add: restoreAll_Cons split: if_splits)
  have "destinationParam h' d = destinationParam (restoreStep a h) d"
    by (rule Cons.IH [OF rest]) (use Cons.prems(2) in simp)
  also have "\<dots> = destinationParam h d"
    by (rule destinationParam_restoreStep_other) (use Cons.prems(2) [of a] in simp)
  finally show ?case .
qed

lemma restoreAll_events:
  "restoreAll cs h = Inr h' \<Longrightarrow> c \<in> set cs \<Longrightarrow> (\<And>n. destination c \<noteq> NodeRef n) \<Longrightarrow>
   \<exists>c' \<in> set cs. paramOf h (destination c') = paramOf h (destination c) \<and>
      SetValue 0 (previousValue c') \<in> set (events (destinationParam h' (destination c)))"
proof (induction cs arbitrary: h c)
  case Nil
  then show ?case by simp
next
  case (Cons a cs)
  have rest: "restoreAll cs (restoreStep a h) = Inr h'"
    using Cons.prems(1) by (simp_all add: restoreAll_Cons split: if_splits)
  show ?case
  proof (cases "\<exists>b \<in> set cs. paramOf h (destination b) = paramOf h (destination c)")
    case True
    then obtain b where b: "b \<in> set cs"
      and pb: "paramOf h (destination b) = paramOf h (destination c)" by blast
    have nb: "\<And>n. destination b \<noteq> NodeRef n"
      using paramOf_notNode [OF pb [symmetric] Cons.prems(3)] by simp
    obtain c' where c': "c' \<in> set cs"
      and pc: "paramOf (restoreStep a h) (destination c') = paramOf (restoreStep a h) (destination b)"
      and ev: "SetValue 0 (previousValue c') \<in> set (events (destinationParam h' (destination b)))"
      using Cons.IH [OF rest b nb] by blast
    have "paramOf h' (destination b) = paramOf h' (destination c)"
      using pb restoreAll_frame [of "a # cs" h] Cons.prems(1)
      by (simp add: paramOf_def heapAfter_def split: ref.splits)
    then have "destinationParam h' (destination b) = destinationParam h' (destination c)"
      by (rule destinationParam_paramOf)
    then show ?thesis using c' pc ev pb by auto
  next
    case False
    then have c: "c = a" using Cons.prems(2) by auto
    have "destinationParam h' (destination a) = destinationParam (restoreStep a h) (destination a)"
      by (rule restoreAll_untouched [OF rest]) (use False c in simp)
    also have "\<dots> = (destinationParam h (destination a))
             \<lparr>events := insertEvent (SetValue 0 (previousValue a))
                          (events (destinationParam h (destination a)))\<rparr>"
      using Cons.prems(3) c by (simp add: destinationParam_restoreStep)
    finally show ?thesis using c by (simp add: insertEvent_member)
  qed
qed

section \<open>The store after disconnectSignal\<close>

lemma disconnectSignal_plain:
  "\<not> disconnectGuard h dest \<or> connectedSignals h signal = None \<Longrightarrow>
   disconnectSignal signal dest outN inN h =
     Inr (h\<lparr>wiring := wiring h @ [Disconnect signal dest outN inN]\<rparr>)"
  by (auto simp: disconnectSignal_def disconnect_def)

lemma disconnectSignal_notConnected:
  "disconnectGuard h dest \<Longrightarrow> connectedSignals h signal = Some stored \<Longrightarrow>
   selectConnections dest outN inN stored = [] \<Longrightarrow>
   disconnectSignal signal dest outN inN h = Inl (NotConnectedError, h)"
  by (simp add: disconnectSignal_def)

lemma disconnectSignal_restored:
  assumes g: "disconnectGuard h dest" and s: "connectedSignals h signal = Some stored"
    and n: "selectConnections dest outN inN stored \<noteq> []"
    and r: "restoreAll (selectConnections dest outN inN stored) h = Inr h1"
  shows "disconnectSignal signal dest outN inN h =
     Inr (h1\<lparr>connectedSignals := (connectedSignals h)(signal \<mapsto>
              filter (\<lambda>conn. conn \<notin> set (selectConnections dest outN inN stored)) stored),
           wiring := wiring h @ [Disconnect signal dest outN inN]\<rparr>)"
proof -
  have f: "connectedSignals h1 = connectedSignals h" "wiring h1 = wiring h"
    using restoreAll_frame [of "selectConnections dest outN inN stored" h] r
    by (simp_all add: heapAfter_def)
  show ?thesis using g s n r
    by (simp add: disconnectSignal_def Let_def f disconnect_def)
qed

lemma disconnectSignal_restoreError:
  "disconnectGuard h dest \<Longrightarrow> connectedSignals h signal = Some stored \<Longrightarrow>
   selectConnections dest outN inN stored \<noteq> [] \<Longrightarrow>
   restoreAll (selectConnections dest outN inN stored) h = Inl err \<Longrightarrow>
   disconnectSignal signal dest outN inN h = Inl err"
  by (simp add: disconnectSignal_def Let_def)

lemma disconnectSignal_raises_iff:
  "raised (disconnectSignal signal dest outN inN h) = Some NotConnectedError \<longleftrightarrow>
     disconnectGuard h dest \<and> connectedSignals h signal \<noteq> None \<and>
     selectConnections dest outN inN (recordsOf h signal) = []"
proof (cases "disconnectGuard h dest \<and> connectedSignals h signal \<noteq> None")
  case False
  then have "\<not> disconnectGuard h dest \<or> connectedSignals h signal = None" by blast
  then show ?thesis using False by (simp add: disconnectSignal_plain raised_def)
next
  case True
  then obtain stored where g: "disconnectGuard h dest" and s: "connectedSignals h signal = Some stored"
    by auto
  have rec: "recordsOf h signal = stored" by (simp add: recordsOf_def s)
  show ?thesis
  proof (cases "selectConnections dest outN inN stored = []")
    case True
    then show ?thesis using g s rec
      by (simp add: disconnectSignal_notConnected raised_def)
  next
    case False
    show ?thesis
    proof (cases "restoreAll (selectConnections dest outN inN stored) h")
      case (Inl err)
      then have "raised (restoreAll (selectConnections dest outN inN stored) h) = Some (fst err)"
        by (simp add: raised_def split: prod.split)
      then have "fst err = RangeError"
        using restoreAll_raised [of "selectConnections dest outN inN stored" h] by simp
      then show ?thesis
        using False g s rec Inl disconnectSignal_restoreError [OF g s False Inl]
        by (auto simp: raised_def split: prod.split)
    next
      case (Inr h1)
      then show ?thesis
        using False g s rec disconnectSignal_restored [OF g s False Inr]
        by (simp add: raised_def)
    qed
  qed
qed



lemma emptyHeap_facts:
  "isOverridable emptyHeap (SignalRef s)"
  "connectedSignals emptyHeap = (\<lambda>r. None)"
  "wiring emptyHeap = []"
  "now emptyHeap = 0"
  "destinationParam emptyHeap (SignalRef s)
     = \<lparr>events = [], initialValue = 5, minValue = None, maxValue = None\<rparr>"
  "recordsOf emptyHeap signal = []"
  by (simp_all add: emptyHeap_def isOverridable_def destinationParam_def newParam_def
      recordsOf_def)

lemma getOverridden_paramOf:
  "isSignalOrParam d \<Longrightarrow>
   \<exists>p. paramOf h d = ParamRef p \<and> getOverridden h d = overridden (params h p)"
  by (cases d) (simp_all add: isSignalOrParam_def paramOf_def getOverridden_def)

lemma paramOf_signals_cong: "signals h' = signals h \<Longrightarrow> paramOf h' d = paramOf h d"
  by (cases d) (simp_all add: paramOf_def)

lemma getOverridden_signals_cong:
  "signals h' = signals h \<Longrightarrow> params h' = params h1 \<Longrightarrow> signals h1 = signals h \<Longrightarrow>
   getOverridden h' d = getOverridden h1 d"
  by (cases d) (simp_all add: getOverridden_def)

lemma isOverridable_fields [simp]:
  "isOverridable (h\<lparr>connectedSignals := c\<rparr>) d = isOverridable h d"
  "isOverridable (h\<lparr>wiring := w\<rparr>) d = isOverridable h d"
  by (simp_all add: isOverridable_def split: ref.split)

lemma paramOf_fields [simp]:
  "paramOf (h\<lparr>connectedSignals := c\<rparr>) d = paramOf h d"
  "paramOf (h\<lparr>wiring := w\<rparr>) d = paramOf h d"
  by (simp_all add: paramOf_def split: ref.split)

lemma emptyHeap_value: "getValue emptyHeap (SignalRef s) = 5"
  by (simp add: getValue_def emptyHeap_facts getValueAtTime_def evaluate_def previousEvents_def
      clamp_def)

lemma emptyHeap_inRange: "inRange (destinationParam emptyHeap (SignalRef s)) v"
  by (simp add: emptyHeap_facts inRange_def)

lemma emptyHeap_overridden: "getOverridden emptyHeap d = False"
  by (cases d) (simp_all add: getOverridden_def emptyHeap_def newParam_def)

lemma connectedHeap_eq:
  "connectedHeap =
     (setOverridden True (SignalRef 0)
        (updateParam (SignalRef 0)
           \<lparr>events = [SetValue 0 0], initialValue = 5, minValue = None, maxValue = None\<rparr>
           emptyHeap))
     \<lparr>connectedSignals := (connectedSignals emptyHeap)(SignalRef 2 \<mapsto>
          [\<lparr>destination = SignalRef 0, outputNum = 0, inputNum = 0, previousValue = 5\<rparr>]),
      wiring := [Connect (SignalRef 2) (SignalRef 0) None None]\<rparr>"
  unfolding connectedHeap_def
    connectSignal_overriding [OF emptyHeap_facts(1) emptyHeap_inRange]
  by (simp add: heapAfter_def emptyHeap_facts emptyHeap_value orZero_def cancelFrom_def
      insertEvent_def)

lemma connectedHeap_facts:
  "connectedSignals connectedHeap (SignalRef 2)
     = Some [\<lparr>destination = SignalRef 0, outputNum = 0, inputNum = 0, previousValue = 5\<rparr>]"
  "recordsOf connectedHeap (SignalRef 2)
     = [\<lparr>destination = SignalRef 0, outputNum = 0, inputNum = 0, previousValue = 5\<rparr>]"
  "disconnectGuard connectedHeap (Some (SignalRef 0))"
  "destinationParam connectedHeap (SignalRef 0)
     = \<lparr>events = [SetValue 0 0], initialValue = 5, minValue = None, maxValue = None\<rparr>"
  "wiring connectedHeap = [Connect (SignalRef 2) (SignalRef 0) None None]"
  "getOverridden connectedHeap (SignalRef 0)"
  "now connectedHeap = 0"
  by (simp_all add: connectedHeap_eq recordsOf_def disconnectGuard_def emptyHeap_facts
      getOverridden_setOverridden isSignalOrParam_def)

section \<open>Preservation of the override invariant\<close>

lemma paramOf_callCancel [simp]: "paramOf (callCancelScheduledValues t d h) d' = paramOf h d'"
  by (simp add: callCancelScheduledValues_def)

lemma overridden_callCancel [simp]:
  "overridden (params (callCancelScheduledValues t d h) p) = overridden (params h p)"
  by (simp add: callCancelScheduledValues_def)

lemma overridden_setOverridden_True:
  "overridden (params (setOverridden True d h) p) \<Longrightarrow>
   overridden (params h p) \<or> paramOf h d = ParamRef p"
  by (cases d) (auto simp: setOverridden_def paramOf_def split: if_splits)

lemma connectSignal_preserves:
  assumes inv: "overriddenHasRecord h"
  shows "overriddenHasRecord (heapAfter (connectSignal signal dest outN inN h))"
proof (cases "isOverridable h dest")
  case False
  then have "heapAfter (connectSignal signal dest outN inN h)
               = h\<lparr>wiring := wiring h @ [Connect signal dest outN inN]\<rparr>"
    by (simp add: connectSignal_plain heapAfter_def)
  then show ?thesis using inv by (simp add: overriddenHasRecord_def)
next
  case g: True
  show ?thesis
  proof (cases "inRange (destinationParam h dest) 0")
    case False
    then have "heapAfter (connectSignal signal dest outN inN h)
                 = callCancelScheduledValues 0 dest h"
      using g by (simp add: connectSignal_rangeError heapAfter_def)
    then show ?thesis using inv by (simp add: overriddenHasRecord_def)
  next
    case True
    let ?r = "\<lparr>destination = dest, outputNum = orZero outN, inputNum = orZero inN,
               previousValue = getValue h dest\<rparr>"
    let ?h' = "heapAfter (connectSignal signal dest outN inN h)"
    have rec: "recordsOf ?h' s = (if s = signal then recordsOf h signal @ [?r] else recordsOf h s)"
      for s
      by (simp add: connectSignal_overriding [OF g True] heapAfter_def)
    have par: "paramOf ?h' d = paramOf h d" for d
      by (simp add: connectSignal_overriding [OF g True] heapAfter_def)
    have flag: "overridden (params h p) \<or> paramOf h dest = ParamRef p"
      if "overridden (params ?h' p)" for p
      using that
      by (auto simp: connectSignal_overriding [OF g True] heapAfter_def
          dest!: overridden_setOverridden_True)
    show ?thesis
      unfolding overriddenHasRecord_def
    proof (intro allI impI)
      fix p
      assume "overridden (params ?h' p)"
      then consider "overridden (params h p)" | "paramOf h dest = ParamRef p"
        using flag by blast
      then show "\<exists>s c. c \<in> set (recordsOf ?h' s) \<and> paramOf ?h' (destination c) = ParamRef p"
      proof cases
        case 1
        then obtain s c where "c \<in> set (recordsOf h s)" "paramOf h (destination c) = ParamRef p"
          using inv by (auto simp: overriddenHasRecord_def)
        then have "c \<in> set (recordsOf ?h' s) \<and> paramOf ?h' (destination c) = ParamRef p"
          by (auto simp: rec par)
        then show ?thesis by blast
      next
        case 2
        then have "?r \<in> set (recordsOf ?h' signal) \<and> paramOf ?h' (destination ?r) = ParamRef p"
          by (simp add: rec par)
        then show ?thesis by blast
      qed
    qed
  qed
qed

lemma disconnectSignal_preserves:
  assumes inv: "overriddenHasRecord h"
  shows "overriddenHasRecord (heapAfter (disconnectSignal signal dest outN inN h))"
proof (cases "disconnectGuard h dest \<and> connectedSignals h signal \<noteq> None")
  case False
  then have "heapAfter (disconnectSignal signal dest outN inN h)
               = h\<lparr>wiring := wiring h @ [Disconnect signal dest outN inN]\<rparr>"
    using disconnectSignal_plain [of h dest signal outN inN] by (auto simp: heapAfter_def)
  then show ?thesis using inv by (simp add: overriddenHasRecord_def)
next
  case True
  then obtain stored where g: "disconnectGuard h dest"
    and s: "connectedSignals h signal = Some stored" by auto
  have rs: "recordsOf h signal = stored" by (simp add: recordsOf_def s)
  let ?sel = "selectConnections dest outN inN stored"
  show ?thesis
  proof (cases "?sel = []")
    case True
    then show ?thesis using inv
      by (simp add: disconnectSignal_notConnected [OF g s] heapAfter_def)
  next
    case ne: False
    show ?thesis
    proof (cases "restoreAll ?sel h")
      case (Inl err)
      let ?h' = "heapAfter (disconnectSignal signal dest outN inN h)"
      have eq: "?h' = heapAfter (restoreAll ?sel h)"
        by (simp add: disconnectSignal_restoreError [OF g s ne Inl] Inl heapAfter_def)
      have fr: "signals ?h' = signals h" "connectedSignals ?h' = connectedSignals h"
        using restoreAll_frame [of ?sel h] by (simp_all add: eq)
      have rec: "recordsOf ?h' x = recordsOf h x" for x
        by (simp add: recordsOf_def fr)
      have par: "paramOf ?h' d = paramOf h d" for d
        by (rule paramOf_signals_cong) (rule fr)
      have flag: "overridden (params h p)" if "overridden (params ?h' p)" for p
        using that restoreAll_flags_decrease [of ?sel h p] by (simp add: eq)
      show ?thesis using inv flag
        unfolding overriddenHasRecord_def rec par by blast
    next
      case (Inr h1)
      let ?h' = "heapAfter (disconnectSignal signal dest outN inN h)"
      have eq: "?h' = h1\<lparr>connectedSignals := (connectedSignals h)(signal \<mapsto>
              filter (\<lambda>conn. conn \<notin> set ?sel) stored),
           wiring := wiring h @ [Disconnect signal dest outN inN]\<rparr>"
        by (simp add: disconnectSignal_restored [OF g s ne Inr] heapAfter_def)
      have fr: "signals h1 = signals h"
        using restoreAll_frame [of ?sel h] Inr by (simp add: heapAfter_def)
      have rec: "recordsOf ?h' x
                   = (if x = signal then filter (\<lambda>conn. conn \<notin> set ?sel) stored else recordsOf h x)"
        for x
        by (simp add: eq)
      have par: "paramOf ?h' d = paramOf h d" for d
        by (simp add: eq paramOf_signals_cong [OF fr])
      have flag: "overridden (params h p) \<and> (\<forall>c \<in> set ?sel. paramOf h (destination c) \<noteq> ParamRef p)"
        if o: "overridden (params ?h' p)" for p
      proof -
        have o1: "overridden (params h1 p)" using o by (simp add: eq)
        have "overridden (params h p)"
          using o1 restoreAll_flags_decrease [of ?sel h p] Inr by (simp add: heapAfter_def)
        moreover have "paramOf h (destination c) \<noteq> ParamRef p" if "c \<in> set ?sel" for c
          using restoreAll_flags_cleared [OF Inr that, of p] o1 by blast
        ultimately show ?thesis by blast
      qed
      show ?thesis
        unfolding overriddenHasRecord_def
      proof (intro allI impI)
        fix p
        assume o: "overridden (params ?h' p)"
        then have oh: "overridden (params h p)"
          and cl: "\<forall>c \<in> set ?sel. paramOf h (destination c) \<noteq> ParamRef p"
          using flag by blast+
        obtain x c where c: "c \<in> set (recordsOf h x)" and t: "paramOf h (destination c) = ParamRef p"
          using inv oh by (auto simp: overriddenHasRecord_def)
        have "c \<notin> set ?sel" using cl t by blast
        then have "c \<in> set (recordsOf ?h' x)"
          using c rs by (auto simp: rec)
        then have "c \<in> set (recordsOf ?h' x) \<and> paramOf ?h' (destination c) = ParamRef p"
          using t by (simp add: par)
        then show "\<exists>s c. c \<in> set (recordsOf ?h' s) \<and> paramOf ?h' (destination c) = ParamRef p"
          by blast
      qed
    qed
  qed
qed

lemma perform_preserves: "overriddenHasRecord h \<Longrightarrow> overriddenHasRecord (perform op h)"
  by (cases op) (simp_all add: connectSignal_preserves disconnectSignal_preserves)

lemma signals_connectSignal [simp]:
  "signals (heapAfter (connectSignal signal dest outN inN h)) = signals h"
proof (cases "isOverridable h dest")
  case False
  then show ?thesis by (simp add: connectSignal_plain heapAfter_def)
next
  case True
  then show ?thesis
    by (cases "inRange (destinationParam h dest) 0")
       (simp_all add: connectSignal_overriding connectSignal_rangeError heapAfter_def
          callCancelScheduledValues_def)
qed

lemma now_connectSignal [simp]:
  "now (heapAfter (connectSignal signal dest outN inN h)) = now h"
proof (cases "isOverridable h dest")
  case False
  then show ?thesis by (simp add: connectSignal_plain heapAfter_def)
next
  case True
  then show ?thesis
    by (cases "inRange (destinationParam h dest) 0")
       (simp_all add: connectSignal_overriding connectSignal_rangeError heapAfter_def
          callCancelScheduledValues_def)
qed

lemma connectedHeap_overridable: "isOverridable connectedHeap (SignalRef 0)"
  using connectedHeap_facts(3) by (simp add: disconnectGuard_def)

lemma connectedHeap_value: "getValue connectedHeap (SignalRef 0) = 0"
  by (simp add: getValue_def connectedHeap_facts getValueAtTime_def evaluate_def
      previousEvents_def nextEvent_def clamp_def)

lemma connectedHeap_sigParam: "sigParam (signals connectedHeap 0) = 0"
  by (simp add: connectedHeap_def emptyHeap_def)

lemma connectedHeap_run: "run [ConnectOp (SignalRef 2) (SignalRef 0) None None] emptyHeap = connectedHeap"
  by (simp add: connectedHeap_def)

lemma connectedHeap_flag: "overridden (params connectedHeap 0)"
  using connectedHeap_facts(6) by (simp add: getOverridden_def connectedHeap_sigParam)

section \<open>The value of an overridden schedule\<close>

lemma insertEvent_set: "e \<in> set (insertEvent x evs) \<Longrightarrow> e = x \<or> e \<in> set evs"
  by (auto simp: insertEvent_def)

lemma evaluate_insert_last:
  assumes le: "\<And>e. e \<in> set evs \<Longrightarrow> time e \<le> a" and t: "a \<le> t"
  shows "evaluate init (insertEvent (SetValue a v) evs) t = v"
proof -
  have f: "filter (\<lambda>e. a < time e) evs = []"
    by (rule filter_none) (use le in fastforce)
  have i: "insertEvent (SetValue a v) evs = filter (\<lambda>e. time e < a) evs @ [SetValue a v]"
    by (simp add: insertEvent_def f)
  have "evaluate init (filter (\<lambda>e. time e < a) evs @ [SetValue a v]) t
          = settled init (rev (filter (\<lambda>e. time e < a) evs @ [SetValue a v])) t"
    by (rule evaluate_all_before) (use t in auto)
  then show ?thesis by (simp add: i)
qed

lemma insertEvent_times:
  "(\<And>e. e \<in> set evs \<Longrightarrow> time e \<le> a) \<Longrightarrow> e \<in> set (insertEvent (SetValue a v) evs) \<Longrightarrow>
   time e \<le> a"
  using insertEvent_set [of e "SetValue a v" evs] by auto

lemma inRange_clamp: "inRange p z \<Longrightarrow> inRange p (clamp p x)"
  by (auto simp: inRange_def clamp_def split: option.splits)

text \<open>The schedule an overriding connection leaves evaluates to 0 from time 0 on.\<close>

lemma overridden_schedule_value:
  "0 \<le> t \<Longrightarrow> evaluate init (insertEvent (SetValue 0 v) (cancelFrom 0 i evs)) t = v"
  by (rule evaluate_insert_last) (auto dest: cancelFrom_times)

lemma overridden_schedule_times:
  "e \<in> set (insertEvent (SetValue 0 v) (cancelFrom 0 i evs)) \<Longrightarrow> time e \<le> 0"
  by (rule insertEvent_times) (auto dest: cancelFrom_times)

lemma now_fields [simp]:
  "now (h\<lparr>connectedSignals := c\<rparr>) = now h" "now (h\<lparr>wiring := w\<rparr>) = now h"
  by simp_all

section \<open>The store after the constructor\<close>

lemma Signal_new_signal:
  "signals (Signal_new options isSuspended sid addr h) sid =
     \<lparr>override = True, sigParam = addr,
      constantSource = \<lparr>offset = addr, hasSource = \<not> isSuspended, gainStart = Some 0,
                         sourceStart = (if isSuspended then None else Some 0)\<rparr>\<rparr>"
  by (simp add: Signal_new_def ToneConstantSource_new_def ToneConstantSource_start_def)

lemma Signal_new_param:
  "params (Signal_new options isSuspended sid addr h) addr =
     newParam (optValue options) (optMinValue options) (optMaxValue options)"
  by (simp add: Signal_new_def ToneConstantSource_new_def ToneConstantSource_start_def)

lemma Signal_new_records [simp]:
  "recordsOf (Signal_new options isSuspended sid addr h) signal = recordsOf h signal"
  by (simp add: Signal_new_def ToneConstantSource_new_def recordsOf_def Let_def)

lemma Signal_new_wiring [simp]:
  "wiring (Signal_new options isSuspended sid addr h) = wiring h"
  by (simp add: Signal_new_def ToneConstantSource_new_def Let_def)

lemma Signal_new_now [simp]:
  "now (Signal_new options isSuspended sid addr h) = now h"
  by (simp add: Signal_new_def ToneConstantSource_new_def Let_def)

lemma Signal_new_destinationParam:
  "destinationParam (Signal_new options isSuspended sid addr h) (SignalRef sid) =
     \<lparr>events = [], initialValue = optValue options, minValue = optMinValue options,
      maxValue = optMaxValue options\<rparr>"
  by (simp add: destinationParam_def Signal_new_signal Signal_new_param newParam_def)

lemma Signal_new_passes_guard:
  "isOverridable (Signal_new options isSuspended sid addr h) (SignalRef sid)"
  by (simp add: isOverridable_def Signal_new_signal)

lemma Signal_new_flag:
  "getOverridden (Signal_new options isSuspended sid addr h) (SignalRef sid) = False"
  by (simp add: getOverridden_def Signal_new_signal Signal_new_param newParam_def)

lemma emptyHeap_audioParam:
  "destinationParam emptyHeap (AudioParamRef a)
     = \<lparr>events = [], initialValue = 5, minValue = None, maxValue = None\<rparr>"
  "isOverridable emptyHeap (AudioParamRef a)"
  "getValue emptyHeap (AudioParamRef a) = 5"
  by (simp_all add: emptyHeap_def destinationParam_def isOverridable_def getValue_def
      getValueAtTime_def evaluate_def previousEvents_def clamp_def)

section \<open>The time order of the timeline\<close>

text \<open>
  Insertion and cancellation keep a timeline in strictly increasing time order (section 3).
\<close>

lemma sorted_insertEvent:
  "sorted_wrt (\<lambda>a b. time a < time b) evs \<Longrightarrow>
   sorted_wrt (\<lambda>a b. time a < time b) (insertEvent x evs)"
  by (auto simp: insertEvent_def sorted_wrt_append intro: sorted_wrt_filter)

lemma cancelFrom_single:
  "cancelFrom t init evs = filter (\<lambda>e. time e < t) evs \<or>
   (\<exists>e. cancelFrom t init evs = filter (\<lambda>e. time e < t) evs @ [e] \<and> time e = t)"
  by (simp add: cancelFrom_def Let_def
      split: list.split option.split AutomationEvent.split)

lemma sorted_cancelFrom:
  assumes s: "sorted_wrt (\<lambda>a b. time a < time b) evs"
  shows "sorted_wrt (\<lambda>a b. time a < time b) (cancelFrom t init evs)"
proof -
  have k: "sorted_wrt (\<lambda>a b. time a < time b) (filter (\<lambda>e. time e < t) evs)"
    using s by (rule sorted_wrt_filter)
  show ?thesis
    using cancelFrom_single [of t init evs] k
    by (auto simp: sorted_wrt_append)
qed

section \<open>The exponential approach to a target\<close>




section \<open>The order of the restoring loop\<close>

text \<open>
  An event inserted at the time of the event inserted before it replaces that event.
\<close>

lemma insertEvent_replace:
  "time x = time y \<Longrightarrow> insertEvent x (insertEvent y evs) = insertEvent x evs"
proof -
  assume t: "time x = time y"
  have a: "filter (\<lambda>e. time y < time e \<and> time e < time y) evs = []"
    by (rule filter_none) simp
  have b: "filter (\<lambda>e. time e < time y \<and> time y < time e) evs = []"
    by (rule filter_none) simp
  have c: "(\<lambda>e. time e < time y \<and> time e < time y) = (\<lambda>e. time e < time y)"
    "(\<lambda>e. time y < time e \<and> time y < time e) = (\<lambda>e. time y < time e)"
    by auto
  show ?thesis by (simp add: insertEvent_def t a b c)
qed

text \<open>
  One iteration of the loop (lines 258 to 263): the flag is cleared on a Signal or a Param, then
  \<open>setValueAtTime(previousValue, 0)\<close> is called on the destination.
\<close>

lemma restoreStep_call:
  "inRange (destinationParam h (destination c)) (previousValue c) \<Longrightarrow>
   callSetValueAtTime (previousValue c) 0 (destination c)
     (if isSignalOrParam (destination c) then setOverridden False (destination c) h else h)
     = Inr (restoreStep c h)"
  by (cases "isSignalOrParam (destination c)")
     (simp_all add: callSetValueAtTime_cases restoreStep_def setOverridden_other)

text \<open>
  The loop applies the iterations to the selected records from the first to the last.
\<close>

lemma restoreAll_foldl:
  "restoreAll cs h = Inr h' \<Longrightarrow> h' = foldl (\<lambda>a c. restoreStep c a) h cs"
proof (induction cs arbitrary: h)
  case Nil
  then show ?case by simp
next
  case (Cons c cs)
  then show ?case by (simp add: restoreAll_Cons split: if_splits)
qed

lemma foldl_restoreStep_frame [simp]:
  "signals (foldl (\<lambda>a c. restoreStep c a) h cs) = signals h"
  "connectedSignals (foldl (\<lambda>a c. restoreStep c a) h cs) = connectedSignals h"
  "wiring (foldl (\<lambda>a c. restoreStep c a) h cs) = wiring h"
  "now (foldl (\<lambda>a c. restoreStep c a) h cs) = now h"
  "paramOf (foldl (\<lambda>a c. restoreStep c a) h cs) d = paramOf h d"
  by (induction cs arbitrary: h) simp_all

text \<open>
  After the loop a destination holds the snapshot of the last selected record on its parameter,
  inserted at time 0 into the schedule it had before the loop.
\<close>

lemma foldl_restoreStep_last:
  assumes n: "\<And>n. d \<noteq> NodeRef n"
  shows "destinationParam (foldl (\<lambda>a c. restoreStep c a) h cs) d =
     (if filter (\<lambda>c. paramOf h (destination c) = paramOf h d) cs = []
      then destinationParam h d
      else (destinationParam h d)
               \<lparr>events := insertEvent
                  (SetValue 0 (previousValue
                     (last (filter (\<lambda>c. paramOf h (destination c) = paramOf h d) cs))))
                  (events (destinationParam h d))\<rparr>)"
proof (induction cs rule: rev_induct)
  case Nil
  then show ?case by simp
next
  case (snoc c cs)
  let ?H = "foldl (\<lambda>a c. restoreStep c a) h cs"
  let ?F = "filter (\<lambda>c. paramOf h (destination c) = paramOf h d) cs"
  show ?case
  proof (cases "paramOf h (destination c) = paramOf h d")
    case True
    have nc: "\<And>n. destination c \<noteq> NodeRef n"
      using paramOf_notNode [OF True [symmetric] n] by blast
    have same: "destinationParam ?H (destination c) = destinationParam ?H d"
      by (rule destinationParam_paramOf) (simp add: True)
    have "destinationParam (restoreStep c ?H) d
            = (destinationParam ?H d)
                \<lparr>events := insertEvent (SetValue 0 (previousValue c))
                             (events (destinationParam ?H d))\<rparr>"
      using destinationParam_restoreStep [OF nc, of ?H d] True by (simp add: same)
    also have "\<dots> = (destinationParam h d)
                \<lparr>events := insertEvent (SetValue 0 (previousValue c))
                             (events (destinationParam h d))\<rparr>"
      by (simp add: snoc.IH insertEvent_replace)
    finally show ?thesis using True by simp
  next
    case False
    have "destinationParam (restoreStep c ?H) d = destinationParam ?H d"
      by (rule destinationParam_restoreStep_other) (use False in simp)
    then show ?thesis using False by (simp add: snoc.IH)
  qed
qed

lemma doubledHeap_eq:
  "doubledHeap =
     (setOverridden True (SignalRef 0)
        (updateParam (SignalRef 0)
           \<lparr>events = [SetValue 0 0], initialValue = 5, minValue = None, maxValue = None\<rparr>
           connectedHeap))
     \<lparr>connectedSignals := (connectedSignals connectedHeap)(SignalRef 2 \<mapsto>
          [\<lparr>destination = SignalRef 0, outputNum = 0, inputNum = 0, previousValue = 5\<rparr>,
           \<lparr>destination = SignalRef 0, outputNum = 0, inputNum = 0, previousValue = 0\<rparr>]),
      wiring := [Connect (SignalRef 2) (SignalRef 0) None None,
                 Connect (SignalRef 2) (SignalRef 0) None None]\<rparr>"
proof -
  have g: "isOverridable connectedHeap (SignalRef 0)" by (rule connectedHeap_overridable)
  have r: "inRange (destinationParam connectedHeap (SignalRef 0)) 0"
    by (simp add: connectedHeap_facts inRange_def)
  show ?thesis
    unfolding doubledHeap_def connectSignal_overriding [OF g r]
    by (simp add: heapAfter_def connectedHeap_facts connectedHeap_value orZero_def cancelFrom_def
        insertEvent_def)
qed

lemma doubledHeap_facts:
  "connectedSignals doubledHeap (SignalRef 2)
     = Some [\<lparr>destination = SignalRef 0, outputNum = 0, inputNum = 0, previousValue = 5\<rparr>,
             \<lparr>destination = SignalRef 0, outputNum = 0, inputNum = 0, previousValue = 0\<rparr>]"
  "recordsOf doubledHeap (SignalRef 2)
     = [\<lparr>destination = SignalRef 0, outputNum = 0, inputNum = 0, previousValue = 5\<rparr>,
        \<lparr>destination = SignalRef 0, outputNum = 0, inputNum = 0, previousValue = 0\<rparr>]"
  "disconnectGuard doubledHeap (Some (SignalRef 0))"
  "destinationParam doubledHeap (SignalRef 0)
     = \<lparr>events = [SetValue 0 0], initialValue = 5, minValue = None, maxValue = None\<rparr>"
  "wiring doubledHeap = [Connect (SignalRef 2) (SignalRef 0) None None,
                         Connect (SignalRef 2) (SignalRef 0) None None]"
  "getOverridden doubledHeap (SignalRef 0)"
  using connectedHeap_overridable
  by (simp_all add: doubledHeap_eq recordsOf_def disconnectGuard_def 
      getOverridden_setOverridden isSignalOrParam_def)

lemma wiredHeap_eq:
  "wiredHeap = emptyHeap\<lparr>wiring := [Connect (SignalRef 2) (NodeRef 0) None None]\<rparr>"
  by (simp add: wiredHeap_def connectSignal_plain isOverridable_def heapAfter_def emptyHeap_facts)

section \<open>Scheduling through a Signal\<close>

text \<open>
  C4. On a Signal whose earlier events (if any) lie before time 0 and whose bounds admit 5
  and 10, \<open>setValueAtTime(5, 0)\<close>, \<open>linearRampToValueAtTime(10, 2)\<close> and
  \<open>cancelScheduledValues(1)\<close> leave a schedule whose value at 1.5, and at every time from 1
  on, is 7.5, the value the ramp had reached at the cancellation point, and not 10. The
  cancellation is not retroactive: the events before time 1 are kept, and the value at every
  time up to 1 is what it was before the cancellation.
\<close>

theorem cancel_cuts_ramp:
  assumes old: "\<forall>e \<in> set (events (destinationParam h (SignalRef s))). time e < 0"
    and r5: "inRange (destinationParam h (SignalRef s)) 5"
    and r10: "inRange (destinationParam h (SignalRef s)) 10"
  shows "\<exists>h1 h2. Signal_setValueAtTime 5 0 s h = Inr h1 \<and>
           Signal_linearRampToValueAtTime 10 2 s h1 = Inr h2 \<and>
           Signal_getValueAtTime (3 / 2) s (Signal_cancelScheduledValues 1 s h2) = 15 / 2 \<and>
           (\<forall>t\<ge>1. Signal_getValueAtTime t s (Signal_cancelScheduledValues 1 s h2) = 15 / 2) \<and>
           Signal_getValueAtTime (3 / 2) s (Signal_cancelScheduledValues 1 s h2) \<noteq> 10 \<and>
           (\<forall>t\<le>1. Signal_getValueAtTime t s (Signal_cancelScheduledValues 1 s h2)
                     = Signal_getValueAtTime t s h2) \<and>
           filter (\<lambda>e. time e < 1)
               (events (destinationParam (Signal_cancelScheduledValues 1 s h2) (SignalRef s)))
             = filter (\<lambda>e. time e < 1) (events (destinationParam h2 (SignalRef s)))"
proof -
  let ?P = "destinationParam h (SignalRef s)"
  let ?evs = "events ?P"
  have o: "\<And>e. e \<in> set ?evs \<Longrightarrow> time e < 0" using old by blast
  define P1 where "P1 = ?P\<lparr>events := ?evs @ [SetValue 0 5]\<rparr>"
  define h1 where "h1 = updateParam (SignalRef s) P1 h"
  define P2 where "P2 = ?P\<lparr>events := ?evs @ [SetValue 0 5, LinearRamp 2 10]\<rparr>"
  define h2 where "h2 = updateParam (SignalRef s) P2 h1"
  define P3 where "P3 = ?P\<lparr>events := ?evs @ [SetValue 0 5, LinearRamp 1 (15 / 2)]\<rparr>"
  have i1: "insertEvent (SetValue 0 5) ?evs = ?evs @ [SetValue 0 5]"
    by (rule insertEvent_after_all) (use o in simp)
  have s1: "Signal_setValueAtTime 5 0 s h = Inr h1"
    using r5 by (simp add: callSetValueAtTime_Signal i1 h1_def P1_def)
  have d1: "destinationParam h1 (SignalRef s) = P1" by (simp add: h1_def)
  have i2: "insertEvent (LinearRamp 2 10) (?evs @ [SetValue 0 5]) = ?evs @ [SetValue 0 5, LinearRamp 2 10]"
  proof -
    have "insertEvent (LinearRamp 2 10) (?evs @ [SetValue 0 5]) = (?evs @ [SetValue 0 5]) @ [LinearRamp 2 10]"
      by (rule insertEvent_after_all) (use o in fastforce)
    then show ?thesis by simp
  qed
  have s2: "Signal_linearRampToValueAtTime 10 2 s h1 = Inr h2"
    using r10 by (simp add: callLinearRamp_Signal d1 P1_def i2 h2_def P2_def)
  have d2: "destinationParam h2 (SignalRef s) = P2" by (simp add: h2_def)
  have d3: "destinationParam (Signal_cancelScheduledValues 1 s h2) (SignalRef s) = P3"
    by (simp add: Signal_cancelScheduledValues_def callCancelScheduledValues_def d2
        cancelScheduledValues_def P2_def P3_def ramp_schedule_cancel [OF o])
  have held: "Signal_getValueAtTime t s (Signal_cancelScheduledValues 1 s h2) = 15 / 2"
    if "1 \<le> t" for t
  proof -
    have "clamp ?P (15 / 2) = 15 / 2" by (rule clamp_between [OF r5 r10]) simp_all
    then show ?thesis using that
      by (simp add: Signal_getValueAtTime_def callGetValueAtTime_def d3 getValueAtTime_def
          P3_def ramp_schedule_held [OF o])
  qed
  have before: "Signal_getValueAtTime t s (Signal_cancelScheduledValues 1 s h2)
                  = Signal_getValueAtTime t s h2" if "t \<le> 1" for t
    using that
    by (simp add: Signal_getValueAtTime_def callGetValueAtTime_def d3 d2 getValueAtTime_def
        P3_def P2_def ramp_schedule_before [OF o])
  have kept: "filter (\<lambda>e. time e < 1)
                 (events (destinationParam (Signal_cancelScheduledValues 1 s h2) (SignalRef s)))
               = filter (\<lambda>e. time e < 1) (events (destinationParam h2 (SignalRef s)))"
    by (simp add: d3 d2 P3_def P2_def)
  have at: "Signal_getValueAtTime (3 / 2) s (Signal_cancelScheduledValues 1 s h2) = 15 / 2"
    by (rule held) simp
  have ne: "Signal_getValueAtTime (3 / 2) s (Signal_cancelScheduledValues 1 s h2) \<noteq> 10"
    unfolding at by simp
  show ?thesis
    apply (rule exI [of _ h1])
    apply (rule exI [of _ h2])
    apply (intro conjI allI impI)
          apply (rule s1)
         apply (rule s2)
        apply (rule at)
       apply (erule held)
      apply (rule ne)
     apply (erule before)
    apply (rule kept)
    done
qed

theorem cancel_cuts_ramp_witness:
  "events (destinationParam emptyHeap (SignalRef 0)) = [] \<and>
   inRange (destinationParam emptyHeap (SignalRef 0)) 5 \<and>
   inRange (destinationParam emptyHeap (SignalRef 0)) 10 \<and>
   (\<exists>h1 h2. Signal_setValueAtTime 5 0 0 emptyHeap = Inr h1 \<and>
      Signal_linearRampToValueAtTime 10 2 0 h1 = Inr h2 \<and>
      Signal_getValueAtTime (3 / 2) 0 (Signal_cancelScheduledValues 1 0 h2) = 15 / 2)"
proof -
  have a: "\<forall>e \<in> set (events (destinationParam emptyHeap (SignalRef 0))). time e < 0"
    by (simp add: emptyHeap_def destinationParam_def newParam_def)
  have b: "inRange (destinationParam emptyHeap (SignalRef 0)) 5"
    by (simp add: emptyHeap_def destinationParam_def newParam_def inRange_def)
  have c: "inRange (destinationParam emptyHeap (SignalRef 0)) 10"
    by (simp add: emptyHeap_def destinationParam_def newParam_def inRange_def)
  have e: "events (destinationParam emptyHeap (SignalRef 0)) = []"
    by (simp add: emptyHeap_def destinationParam_def newParam_def)
  show ?thesis using e b c cancel_cuts_ramp [OF a b c] by blast
qed

text \<open>
  C6. For every stored timeline, every time \<open>t\<close> and every value \<open>v\<close> within the clamp
  bounds, \<open>setValueAtTime(v, t)\<close> succeeds and \<open>getValueAtTime(t)\<close> then returns \<open>v\<close>.
\<close>

theorem setValueAtTime_roundtrip:
  assumes "inRange (destinationParam h (SignalRef s)) v"
  shows "\<exists>h'. Signal_setValueAtTime v t s h = Inr h' \<and> Signal_getValueAtTime t s h' = v"
  using assms
  by (simp add: Signal_setValueAtTime_def callSetValueAtTime_def setValueAtTime_def
      Signal_getValueAtTime_def callGetValueAtTime_def getValueAtTime_def
      evaluate_insert_SetValue clamp_inRange)

theorem setValueAtTime_roundtrip_witness:
  "inRange (destinationParam rampHeap (SignalRef 0)) 3 \<and>
   (\<exists>h'. Signal_setValueAtTime 3 1 0 rampHeap = Inr h' \<and> Signal_getValueAtTime 1 0 h' = 3)"
proof -
  have r: "inRange (destinationParam rampHeap (SignalRef 0)) 3"
    by (simp add: rampHeap_param inRange_def)
  show ?thesis using r setValueAtTime_roundtrip [OF r, of 1] by simp
qed

text \<open>
  C7. Assigning the \<open>value\<close> property of a Signal leaves every event scheduled after the
  current time unchanged, whether the assignment succeeds or raises. When the value is within
  the bounds the assignment succeeds, a value event at the current time is in the timeline
  and the property reads back as assigned. Scheduled events are removed by
  \<open>cancelScheduledValues\<close>: cancelling from the current time leaves no later event.
\<close>

theorem value_assignment_frame:
  "filter (\<lambda>e. now h < time e)
       (events (destinationParam (heapAfter (Signal_set_value v s h)) (SignalRef s)))
     = filter (\<lambda>e. now h < time e) (events (destinationParam h (SignalRef s))) \<and>
   (inRange (destinationParam h (SignalRef s)) v \<longrightarrow>
      raised (Signal_set_value v s h) = None \<and>
      SetValue (now h) v
        \<in> set (events (destinationParam (heapAfter (Signal_set_value v s h)) (SignalRef s))) \<and>
      Signal_value s (heapAfter (Signal_set_value v s h)) = v) \<and>
   (\<forall>e \<in> set (events (destinationParam (Signal_cancelScheduledValues (now h) s h)
                          (SignalRef s))). time e \<le> now h)"
proof -
  let ?P = "destinationParam h (SignalRef s)"
  have frame: "filter (\<lambda>e. now h < time e)
       (events (destinationParam (heapAfter (Signal_set_value v s h)) (SignalRef s)))
     = filter (\<lambda>e. now h < time e) (events ?P)"
  proof (cases "inRange ?P v")
    case True
    then show ?thesis
      using filter_gt_insertEvent [of "SetValue (now h) v" "events ?P"]
      by (simp add: Signal_set_value_def setValue_def callSetValueAtTime_def setValueAtTime_def
          heapAfter_def)
  next
    case False
    then show ?thesis
      by (simp add: Signal_set_value_def setValue_def callSetValueAtTime_def setValueAtTime_def
          heapAfter_def)
  qed
  have anchor: "raised (Signal_set_value v s h) = None \<and>
      SetValue (now h) v
        \<in> set (events (destinationParam (heapAfter (Signal_set_value v s h)) (SignalRef s))) \<and>
      Signal_value s (heapAfter (Signal_set_value v s h)) = v" if "inRange ?P v"
    using that
    by (simp add: Signal_set_value_def setValue_def callSetValueAtTime_def setValueAtTime_def
        heapAfter_def raised_def insertEvent_member Signal_value_def getValue_def
        getValueAtTime_def evaluate_insert_SetValue clamp_inRange)
  have cancel: "time e \<le> now h"
    if "e \<in> set (events (destinationParam (Signal_cancelScheduledValues (now h) s h)
                          (SignalRef s)))" for e
    using that
    by (simp add: Signal_cancelScheduledValues_def callCancelScheduledValues_def
        cancelScheduledValues_def cancelFrom_times)
  show ?thesis using frame anchor cancel by blast
qed

theorem value_assignment_frame_witness:
  "inRange (destinationParam rampHeap (SignalRef 0)) 3 \<and>
   filter (\<lambda>e. now rampHeap < time e)
       (events (destinationParam (heapAfter (Signal_set_value 3 0 rampHeap)) (SignalRef 0)))
     = [LinearRamp 2 10] \<and>
   Signal_value 0 (heapAfter (Signal_set_value 3 0 rampHeap)) = 3"
proof -
  have r: "inRange (destinationParam rampHeap (SignalRef 0)) 3"
    by (simp add: rampHeap_param inRange_def)
  have f: "filter (\<lambda>e. now rampHeap < time e) (events (destinationParam rampHeap (SignalRef 0)))
             = [LinearRamp 2 10]"
    by (simp add: rampHeap_param rampHeap_now)
  show ?thesis using r f value_assignment_frame [of rampHeap 3 0] by simp
qed




section \<open>Connecting and disconnecting\<close>

text \<open>
  C1, as the code has it. For every source and every destination that passes the guard of
  connectSignal (a Param, a native AudioParam, or a Signal whose \<open>override\<close> flag is set) and
  whose bounds admit 0, the call returns normally; the destination's schedule is the one it
  had, after \<open>cancelScheduledValues(0)\<close> and then \<open>setValueAtTime(0, 0)\<close>; \<open>overridden\<close> is
  true when the destination is a Signal or a Param (a native AudioParam carries no such
  flag); the source's records are those it had followed by the record of the destination,
  \<open>outputNum || 0\<close>, \<open>inputNum || 0\<close> and the value the destination had before any of this;
  and the wiring call has been made. When 0 is outside the destination's bounds,
  \<open>setValueAtTime(0, 0)\<close> raises RangeError after the cancellation and nothing else is done.
  For every destination that does not pass the guard only the wiring call is made.
\<close>

theorem connectSignal_override:
  "(isOverridable h dest \<and> inRange (destinationParam h dest) 0 \<longrightarrow>
      (\<exists>h'. connectSignal signal dest outN inN h = Inr h' \<and>
         destinationParam h' dest =
           (destinationParam h dest)
             \<lparr>events := insertEvent (SetValue 0 0)
                (events (cancelScheduledValues 0 (destinationParam h dest)))\<rparr> \<and>
         (isSignalOrParam dest \<longrightarrow> getOverridden h' dest) \<and>
         recordsOf h' signal =
           recordsOf h signal @
           [\<lparr>destination = dest, outputNum = orZero outN, inputNum = orZero inN,
             previousValue = getValue h dest\<rparr>] \<and>
         wiring h' = wiring h @ [Connect signal dest outN inN])) \<and>
   (isOverridable h dest \<and> \<not> inRange (destinationParam h dest) 0 \<longrightarrow>
      raised (connectSignal signal dest outN inN h) = Some RangeError \<and>
      heapAfter (connectSignal signal dest outN inN h) = callCancelScheduledValues 0 dest h) \<and>
   (\<not> isOverridable h dest \<longrightarrow>
      connectSignal signal dest outN inN h =
        Inr (h\<lparr>wiring := wiring h @ [Connect signal dest outN inN]\<rparr>))"
proof -
  have ok: "\<exists>h'. connectSignal signal dest outN inN h = Inr h' \<and>
         destinationParam h' dest =
           (destinationParam h dest)
             \<lparr>events := insertEvent (SetValue 0 0)
                (events (cancelScheduledValues 0 (destinationParam h dest)))\<rparr> \<and>
         (isSignalOrParam dest \<longrightarrow> getOverridden h' dest) \<and>
         recordsOf h' signal =
           recordsOf h signal @
           [\<lparr>destination = dest, outputNum = orZero outN, inputNum = orZero inN,
             previousValue = getValue h dest\<rparr>] \<and>
         wiring h' = wiring h @ [Connect signal dest outN inN]"
    if g: "isOverridable h dest" and r: "inRange (destinationParam h dest) 0"
  proof -
    have n: "\<And>n. dest \<noteq> NodeRef n" using g by (auto simp: isOverridable_def)
    show ?thesis
      unfolding connectSignal_overriding [OF g r]
      by (simp add: destinationParam_updateParam_same n getOverridden_setOverridden
          cancelScheduledValues_def)
  qed
  have err: "raised (connectSignal signal dest outN inN h) = Some RangeError \<and>
      heapAfter (connectSignal signal dest outN inN h) = callCancelScheduledValues 0 dest h"
    if "isOverridable h dest" and "\<not> inRange (destinationParam h dest) 0"
    using that by (simp add: connectSignal_rangeError raised_def heapAfter_def)
  have plain: "connectSignal signal dest outN inN h =
        Inr (h\<lparr>wiring := wiring h @ [Connect signal dest outN inN]\<rparr>)"
    if "\<not> isOverridable h dest"
    using that by (rule connectSignal_plain)
  show ?thesis using ok err plain by blast
qed

theorem connectSignal_override_witness:
  "isOverridable emptyHeap (SignalRef 0) \<and>
   inRange (destinationParam emptyHeap (SignalRef 0)) 0 \<and>
   (\<exists>h'. connectSignal (SignalRef 2) (SignalRef 0) None None emptyHeap = Inr h' \<and>
      events (destinationParam h' (SignalRef 0)) = [SetValue 0 0] \<and>
      getOverridden h' (SignalRef 0) \<and>
      recordsOf h' (SignalRef 2)
        = [\<lparr>destination = SignalRef 0, outputNum = 0, inputNum = 0, previousValue = 5\<rparr>] \<and>
      wiring h' = [Connect (SignalRef 2) (SignalRef 0) None None]) \<and>
   isOverridable emptyHeap (NodeRef 0) = False \<and>
   connectSignal (SignalRef 2) (NodeRef 0) None None emptyHeap
     = Inr (emptyHeap\<lparr>wiring := wiring emptyHeap @ [Connect (SignalRef 2) (NodeRef 0) None None]\<rparr>)"
proof -
  have g: "isOverridable emptyHeap (SignalRef 0)" by (rule emptyHeap_facts)
  have r: "inRange (destinationParam emptyHeap (SignalRef 0)) 0" by (rule emptyHeap_inRange)
  have n: "isOverridable emptyHeap (NodeRef 0) = False" by (simp add: isOverridable_def)
  have sp: "isSignalOrParam (SignalRef 0)" by (simp add: isSignalOrParam_def)
  show ?thesis
    using g r n sp
      connectSignal_override [of emptyHeap "SignalRef 0" "SignalRef 2" None None]
      connectSignal_override [of emptyHeap "NodeRef 0" "SignalRef 2" None None]
    by (auto simp: emptyHeap_facts emptyHeap_value orZero_def cancelScheduledValues_def
        cancelFrom_def insertEvent_def)
qed

text \<open>
  A destination that passes the guard and is not wired: Signal 0 of \<open>boundedHeap\<close> has
  \<open>minValue\<close> 1, so zeroing it raises RangeError; no wiring call is made, no record is
  appended and \<open>overridden\<close> stays false. And a destination that passes the guard, gets its
  record, and has no \<open>overridden\<close> flag to set: a native AudioParam.
\<close>

theorem connectSignal_counterexample:
  "isOverridable boundedHeap (SignalRef 0) \<and>
   raised (connectSignal (SignalRef 2) (SignalRef 0) (Some 0) (Some 0) boundedHeap)
     = Some RangeError \<and>
   wiring (heapAfter (connectSignal (SignalRef 2) (SignalRef 0) (Some 0) (Some 0) boundedHeap))
     = [] \<and>
   recordsOf (heapAfter (connectSignal (SignalRef 2) (SignalRef 0) (Some 0) (Some 0) boundedHeap))
       (SignalRef 2) = [] \<and>
   getOverridden
       (heapAfter (connectSignal (SignalRef 2) (SignalRef 0) (Some 0) (Some 0) boundedHeap))
       (SignalRef 0) = False \<and>
   isOverridable emptyHeap (AudioParamRef 0) \<and>
   raised (connectSignal (SignalRef 2) (AudioParamRef 0) (Some 0) (Some 0) emptyHeap) = None \<and>
   recordsOf (heapAfter (connectSignal (SignalRef 2) (AudioParamRef 0) (Some 0) (Some 0) emptyHeap))
       (SignalRef 2)
     = [\<lparr>destination = AudioParamRef 0, outputNum = 0, inputNum = 0, previousValue = 5\<rparr>] \<and>
   getOverridden
       (heapAfter (connectSignal (SignalRef 2) (AudioParamRef 0) (Some 0) (Some 0) emptyHeap))
       (AudioParamRef 0) = False"
proof -
  have r: "\<not> inRange (destinationParam boundedHeap (SignalRef 0)) 0"
    by (simp add: boundedHeap_param inRange_def)
  have a: "raised (connectSignal (SignalRef 2) (SignalRef 0) (Some 0) (Some 0) boundedHeap)
     = Some RangeError \<and>
   wiring (heapAfter (connectSignal (SignalRef 2) (SignalRef 0) (Some 0) (Some 0) boundedHeap))
     = [] \<and>
   recordsOf (heapAfter (connectSignal (SignalRef 2) (SignalRef 0) (Some 0) (Some 0) boundedHeap))
       (SignalRef 2) = [] \<and>
   getOverridden
       (heapAfter (connectSignal (SignalRef 2) (SignalRef 0) (Some 0) (Some 0) boundedHeap))
       (SignalRef 0) = False"
    unfolding connectSignal_rangeError [OF boundedHeap_overridable r]
    by (simp add: raised_def heapAfter_def boundedHeap_fields boundedHeap_records)
  have ra: "inRange (destinationParam emptyHeap (AudioParamRef 0)) 0"
    by (simp add: emptyHeap_audioParam inRange_def)
  have b: "raised (connectSignal (SignalRef 2) (AudioParamRef 0) (Some 0) (Some 0) emptyHeap) = None \<and>
   recordsOf (heapAfter (connectSignal (SignalRef 2) (AudioParamRef 0) (Some 0) (Some 0) emptyHeap))
       (SignalRef 2)
     = [\<lparr>destination = AudioParamRef 0, outputNum = 0, inputNum = 0, previousValue = 5\<rparr>] \<and>
   getOverridden
       (heapAfter (connectSignal (SignalRef 2) (AudioParamRef 0) (Some 0) (Some 0) emptyHeap))
       (AudioParamRef 0) = False"
    unfolding connectSignal_overriding [OF emptyHeap_audioParam(2) ra]
    by (simp add: raised_def heapAfter_def emptyHeap_facts emptyHeap_audioParam orZero_def
        getOverridden_def recordsOf_def)
  show ?thesis using a b boundedHeap_overridable emptyHeap_audioParam(2) by blast
qed

text \<open>
  C2, as the code has it. With a destination given, disconnectSignal raises NotConnectedError
  exactly when the destination passes the guard of connectSignal, the source has a record
  list (it has made an overriding connection before) and no record of the list matches. When
  the guard holds, records are selected (those that match, or the whole list when the
  destination is omitted) and each snapshot is within the bounds of its destination, the call
  returns normally, and the store it leaves is the one obtained by going through the selected
  records from the first to the last, on each clearing \<open>overridden\<close> (on a Signal or a Param)
  and calling \<open>setValueAtTime(previousValue, 0)\<close>, then removing exactly the selected records
  from the source's list and making the unwiring call. So \<open>overridden\<close> is false on every
  selected destination that is a Signal or a Param; the schedule of every selected destination
  is the schedule it had, with the snapshot of the last selected record on the same parameter
  inserted at time 0; and a parameter no selected record targets is left as it was. When the
  guard fails or the source has no record list, only the unwiring call is made. What a call
  with the destination omitted does on an empty record list is not part of the statement.
\<close>

theorem disconnectSignal_restores:
  "(raised (disconnectSignal signal (Some d) outN inN h) = Some NotConnectedError \<longleftrightarrow>
      isOverridable h d \<and> connectedSignals h signal \<noteq> None \<and>
      filter (matches d outN inN) (recordsOf h signal) = []) \<and>
   (disconnectGuard h dest \<and> connectedSignals h signal \<noteq> None \<and>
    selectConnections dest outN inN (recordsOf h signal) \<noteq> [] \<and>
    (\<forall>c \<in> set (selectConnections dest outN inN (recordsOf h signal)).
        inRange (destinationParam h (destination c)) (previousValue c)) \<longrightarrow>
      (\<exists>h'. disconnectSignal signal dest outN inN h = Inr h' \<and>
         h' = (foldl (\<lambda>a c. restoreStep c a) h
                 (selectConnections dest outN inN (recordsOf h signal)))
                \<lparr>connectedSignals := (connectedSignals h)(signal \<mapsto>
                     filter (\<lambda>c. c \<notin> set (selectConnections dest outN inN (recordsOf h signal)))
                       (recordsOf h signal)),
                  wiring := wiring h @ [Disconnect signal dest outN inN]\<rparr> \<and>
         recordsOf h' signal =
           filter (\<lambda>c. c \<notin> set (selectConnections dest outN inN (recordsOf h signal)))
             (recordsOf h signal) \<and>
         (\<forall>c \<in> set (selectConnections dest outN inN (recordsOf h signal)).
             isSignalOrParam (destination c) \<longrightarrow> \<not> getOverridden h' (destination c)) \<and>
         (\<forall>c \<in> set (selectConnections dest outN inN (recordsOf h signal)).
             (\<forall>n. destination c \<noteq> NodeRef n) \<longrightarrow>
             events (destinationParam h' (destination c)) =
               insertEvent
                 (SetValue 0 (previousValue (last
                    (filter (\<lambda>c'. paramOf h (destination c') = paramOf h (destination c))
                       (selectConnections dest outN inN (recordsOf h signal))))))
                 (events (destinationParam h (destination c)))) \<and>
         (\<forall>d'. (\<forall>c \<in> set (selectConnections dest outN inN (recordsOf h signal)).
                   paramOf h (destination c) \<noteq> paramOf h d') \<longrightarrow>
               destinationParam h' d' = destinationParam h d') \<and>
         wiring h' = wiring h @ [Disconnect signal dest outN inN])) \<and>
   (\<not> disconnectGuard h dest \<or> connectedSignals h signal = None \<longrightarrow>
      disconnectSignal signal dest outN inN h =
        Inr (h\<lparr>wiring := wiring h @ [Disconnect signal dest outN inN]\<rparr>))"
proof -
  let ?sel = "selectConnections dest outN inN (recordsOf h signal)"
  let ?step = "\<lambda>a c. restoreStep c a"
  have raises: "raised (disconnectSignal signal (Some d) outN inN h) = Some NotConnectedError \<longleftrightarrow>
      isOverridable h d \<and> connectedSignals h signal \<noteq> None \<and>
      filter (matches d outN inN) (recordsOf h signal) = []"
    using disconnectSignal_raises_iff [of signal "Some d" outN inN h]
    by (simp add: disconnectGuard_def selectConnections_def)
  have restored: "\<exists>h'. disconnectSignal signal dest outN inN h = Inr h' \<and>
         h' = (foldl ?step h ?sel)
                \<lparr>connectedSignals := (connectedSignals h)(signal \<mapsto>
                     filter (\<lambda>c. c \<notin> set ?sel) (recordsOf h signal)),
                  wiring := wiring h @ [Disconnect signal dest outN inN]\<rparr> \<and>
         recordsOf h' signal = filter (\<lambda>c. c \<notin> set ?sel) (recordsOf h signal) \<and>
         (\<forall>c \<in> set ?sel. isSignalOrParam (destination c) \<longrightarrow> \<not> getOverridden h' (destination c)) \<and>
         (\<forall>c \<in> set ?sel. (\<forall>n. destination c \<noteq> NodeRef n) \<longrightarrow>
             events (destinationParam h' (destination c)) =
               insertEvent
                 (SetValue 0 (previousValue (last
                    (filter (\<lambda>c'. paramOf h (destination c') = paramOf h (destination c)) ?sel))))
                 (events (destinationParam h (destination c)))) \<and>
         (\<forall>d'. (\<forall>c \<in> set ?sel. paramOf h (destination c) \<noteq> paramOf h d') \<longrightarrow>
               destinationParam h' d' = destinationParam h d') \<and>
         wiring h' = wiring h @ [Disconnect signal dest outN inN]"
    if g: "disconnectGuard h dest" and some: "connectedSignals h signal \<noteq> None"
      and ne: "?sel \<noteq> []"
      and rng: "\<forall>c \<in> set ?sel. inRange (destinationParam h (destination c)) (previousValue c)"
  proof -
    obtain stored where s: "connectedSignals h signal = Some stored" using some by auto
    have rec: "recordsOf h signal = stored" by (simp add: recordsOf_def s)
    have "\<exists>h1. restoreAll ?sel h = Inr h1"
      by (rule restoreAll_total) (use rng in blast)
    then obtain h1 where h1: "restoreAll ?sel h = Inr h1" by blast
    have f1: "h1 = foldl ?step h ?sel" using h1 by (rule restoreAll_foldl)
    define h' where "h' = h1\<lparr>connectedSignals := (connectedSignals h)(signal \<mapsto>
              filter (\<lambda>conn. conn \<notin> set ?sel) stored),
           wiring := wiring h @ [Disconnect signal dest outN inN]\<rparr>"
    have d: "disconnectSignal signal dest outN inN h = Inr h'"
      using disconnectSignal_restored [OF g s, of outN inN h1] ne h1
      by (simp add: rec h'_def)
    have eq: "h' = (foldl ?step h ?sel)
                \<lparr>connectedSignals := (connectedSignals h)(signal \<mapsto>
                     filter (\<lambda>c. c \<notin> set ?sel) (recordsOf h signal)),
                  wiring := wiring h @ [Disconnect signal dest outN inN]\<rparr>"
      unfolding h'_def f1 rec by (rule refl)
    have fr: "signals h1 = signals h"
      using restoreAll_frame [of ?sel h] h1 by (simp add: heapAfter_def)
    have r: "recordsOf h' signal = filter (\<lambda>c. c \<notin> set ?sel) (recordsOf h signal)"
      by (simp add: h'_def rec)
    have w: "wiring h' = wiring h @ [Disconnect signal dest outN inN]"
      by (simp add: h'_def)
    have dp: "destinationParam h' x = destinationParam h1 x" for x
      by (simp add: h'_def)
    have ov: "getOverridden h' x = getOverridden h1 x" for x
      by (simp add: h'_def)
    have flags: "\<not> getOverridden h' (destination c)"
      if c: "c \<in> set ?sel" and sp: "isSignalOrParam (destination c)" for c
    proof -
      obtain p where p: "paramOf h1 (destination c) = ParamRef p"
        and o: "getOverridden h1 (destination c) = overridden (params h1 p)"
        using getOverridden_paramOf [OF sp, of h1] by blast
      have "paramOf h (destination c) = ParamRef p"
        using p paramOf_signals_cong [OF fr] by simp
      then have "\<not> overridden (params h1 p)"
        by (rule restoreAll_flags_cleared [OF h1 c])
      then show ?thesis by (simp add: ov o)
    qed
    have evs: "events (destinationParam h' (destination c)) =
               insertEvent
                 (SetValue 0 (previousValue (last
                    (filter (\<lambda>c'. paramOf h (destination c') = paramOf h (destination c)) ?sel))))
                 (events (destinationParam h (destination c)))"
      if c: "c \<in> set ?sel" and nn: "\<forall>n. destination c \<noteq> NodeRef n" for c
    proof -
      have m: "filter (\<lambda>c'. paramOf h (destination c') = paramOf h (destination c)) ?sel \<noteq> []"
        using c by (auto simp: filter_empty_conv)
      have n': "\<And>n. destination c \<noteq> NodeRef n" using nn by blast
      show ?thesis
        unfolding dp f1 foldl_restoreStep_last [OF n'] using m by simp
    qed
    have frame: "destinationParam h' d' = destinationParam h d'"
      if "\<forall>c \<in> set ?sel. paramOf h (destination c) \<noteq> paramOf h d'" for d'
      unfolding dp by (rule restoreAll_untouched [OF h1]) (use that in blast)
    show ?thesis
      apply (rule exI [of _ h'])
      apply (intro conjI ballI allI impI)
            apply (rule d)
           apply (rule eq)
          apply (rule r)
         apply (erule (1) flags)
        apply (erule (1) evs)
       apply (erule frame)
      apply (rule w)
      done
  qed
  have plain: "disconnectSignal signal dest outN inN h =
        Inr (h\<lparr>wiring := wiring h @ [Disconnect signal dest outN inN]\<rparr>)"
    if "\<not> disconnectGuard h dest \<or> connectedSignals h signal = None"
    using that by (rule disconnectSignal_plain)
  show ?thesis
    apply (intro conjI impI)
      apply (rule raises)
     apply (rule restored)
        apply blast
       apply blast
      apply blast
     apply blast
    apply (erule plain)
    done
qed

theorem disconnectSignal_restores_witness:
  "raised (disconnectSignal (SignalRef 2) (Some (ParamRef 4)) None None doubledHeap)
     = Some NotConnectedError \<and>
   disconnectGuard doubledHeap (Some (SignalRef 0)) \<and>
   selectConnections (Some (SignalRef 0)) None None (recordsOf doubledHeap (SignalRef 2))
     = [\<lparr>destination = SignalRef 0, outputNum = 0, inputNum = 0, previousValue = 5\<rparr>,
        \<lparr>destination = SignalRef 0, outputNum = 0, inputNum = 0, previousValue = 0\<rparr>] \<and>
   inRange (destinationParam doubledHeap (SignalRef 0)) 5 \<and>
   inRange (destinationParam doubledHeap (SignalRef 0)) 0 \<and>
   (\<exists>h'. disconnectSignal (SignalRef 2) (Some (SignalRef 0)) None None doubledHeap = Inr h' \<and>
      recordsOf h' (SignalRef 2) = [] \<and>
      \<not> getOverridden h' (SignalRef 0) \<and>
      events (destinationParam h' (SignalRef 0)) = [SetValue 0 0] \<and>
      wiring h' = [Connect (SignalRef 2) (SignalRef 0) None None,
                   Connect (SignalRef 2) (SignalRef 0) None None,
                   Disconnect (SignalRef 2) (Some (SignalRef 0)) None None])"
proof -
  let ?r = "\<lparr>destination = SignalRef 0, outputNum = 0, inputNum = 0, previousValue = 5\<rparr>"
  let ?q = "\<lparr>destination = SignalRef 0, outputNum = 0, inputNum = 0, previousValue = 0\<rparr>"
  have g: "disconnectGuard doubledHeap (Some (SignalRef 0))" by (rule doubledHeap_facts)
  have s: "selectConnections (Some (SignalRef 0)) None None (recordsOf doubledHeap (SignalRef 2))
             = [?r, ?q]"
    by (simp add: doubledHeap_facts selectConnections_def matches_def)
  have r5: "inRange (destinationParam doubledHeap (SignalRef 0)) 5"
    and r0: "inRange (destinationParam doubledHeap (SignalRef 0)) 0"
    by (simp_all add: doubledHeap_facts inRange_def)
  have c: "connectedSignals doubledHeap (SignalRef 2) \<noteq> None"
    by (simp add: doubledHeap_facts)
  have sp: "isSignalOrParam (SignalRef 0)" by (simp add: isSignalOrParam_def)
  have o: "isOverridable doubledHeap (ParamRef 4)" by (simp add: isOverridable_def)
  have m: "filter (matches (ParamRef 4) None None) (recordsOf doubledHeap (SignalRef 2)) = []"
    by (simp add: doubledHeap_facts matches_def)
  have i: "insertEvent (SetValue 0 0) [SetValue 0 0] = [SetValue 0 0]"
    by (simp add: insertEvent_def)
  show ?thesis
    using g s r5 r0 c sp o m i
      disconnectSignal_restores [of "SignalRef 2" "ParamRef 4" None None doubledHeap
        "Some (SignalRef 0)"]
    by (auto simp: doubledHeap_facts)
qed

text \<open>
  A call on which a destination is given, no record of the source matches it, and no
  NotConnectedError is raised. Signal 2 has been wired to the plain node 0, which does not
  pass the guard of connectSignal, so no record was made. A disconnect from that node does not
  pass the guard of disconnectSignal either (lines 241 to 244): the records are not consulted
  and the unwiring call is made.
\<close>

theorem disconnectSignal_counterexample:
  "wiring wiredHeap = [Connect (SignalRef 2) (NodeRef 0) None None] \<and>
   filter (matches (NodeRef 0) None None) (recordsOf wiredHeap (SignalRef 2)) = [] \<and>
   raised (disconnectSignal (SignalRef 2) (Some (NodeRef 0)) None None wiredHeap) = None \<and>
   wiring (heapAfter (disconnectSignal (SignalRef 2) (Some (NodeRef 0)) None None wiredHeap))
     = [Connect (SignalRef 2) (NodeRef 0) None None,
        Disconnect (SignalRef 2) (Some (NodeRef 0)) None None]"
proof -
  have g: "\<not> disconnectGuard wiredHeap (Some (NodeRef 0))"
    by (simp add: disconnectGuard_def isOverridable_def)
  have d: "disconnectSignal (SignalRef 2) (Some (NodeRef 0)) None None wiredHeap
             = Inr (wiredHeap\<lparr>wiring := wiring wiredHeap
                     @ [Disconnect (SignalRef 2) (Some (NodeRef 0)) None None]\<rparr>)"
    by (rule disconnectSignal_plain) (simp add: g)
  have w: "wiring wiredHeap = [Connect (SignalRef 2) (NodeRef 0) None None]"
    by (simp add: wiredHeap_eq)
  have r: "recordsOf wiredHeap (SignalRef 2) = []"
    by (simp add: wiredHeap_eq recordsOf_def emptyHeap_facts)
  show ?thesis by (simp add: d w r raised_def heapAfter_def)
qed

text \<open>
  C3, as the code has it. Over every sequence of connect and disconnect calls, returning or
  raising, this is preserved: every Param whose \<open>overridden\<close> flag is true is the target of
  at least one live Connection Record of some source (the record names the Param itself or
  the Signal that owns it).
\<close>

theorem overridden_implies_record:
  "overriddenHasRecord h \<Longrightarrow> overriddenHasRecord (run ops h)"
  by (induction ops arbitrary: h) (simp_all add: perform_preserves)

theorem overridden_implies_record_witness:
  "overriddenHasRecord emptyHeap \<and>
   overriddenHasRecord (run [ConnectOp (SignalRef 2) (SignalRef 0) None None] emptyHeap) \<and>
   overridden (params (run [ConnectOp (SignalRef 2) (SignalRef 0) None None] emptyHeap) 0)"
proof -
  have a: "overriddenHasRecord emptyHeap"
    by (simp add: overriddenHasRecord_def emptyHeap_def newParam_def)
  have b: "overriddenHasRecord (run [ConnectOp (SignalRef 2) (SignalRef 0) None None] emptyHeap)"
    using a by (rule overridden_implies_record)
  have c: "overridden (params (run [ConnectOp (SignalRef 2) (SignalRef 0) None None] emptyHeap) 0)"
    unfolding connectedHeap_run by (rule connectedHeap_flag)
  show ?thesis using a b c by blast
qed

text \<open>
  The other direction is not preserved, with a single source: Signal 2 connects to Signal 0
  twice, on input indices 0 and 2, and disconnects the first connection alone. The record of
  the second connection is still live, and \<open>overridden\<close> is false on Signal 0.
\<close>

theorem override_invariant_counterexample:
  "recordsOf
     (run [ConnectOp (SignalRef 2) (SignalRef 0) None None,
           ConnectOp (SignalRef 2) (SignalRef 0) (Some 0) (Some 2),
           DisconnectOp (SignalRef 2) (Some (SignalRef 0)) (Some 0) (Some 0)] emptyHeap)
     (SignalRef 2)
     = [\<lparr>destination = SignalRef 0, outputNum = 0, inputNum = 2, previousValue = 0\<rparr>] \<and>
   getOverridden
     (run [ConnectOp (SignalRef 2) (SignalRef 0) None None,
           ConnectOp (SignalRef 2) (SignalRef 0) (Some 0) (Some 2),
           DisconnectOp (SignalRef 2) (Some (SignalRef 0)) (Some 0) (Some 0)] emptyHeap)
     (SignalRef 0) = False \<and>
   \<not> recordHasOverridden
     (run [ConnectOp (SignalRef 2) (SignalRef 0) None None,
           ConnectOp (SignalRef 2) (SignalRef 0) (Some 0) (Some 2),
           DisconnectOp (SignalRef 2) (Some (SignalRef 0)) (Some 0) (Some 0)] emptyHeap)"
proof -
  let ?r1 = "\<lparr>destination = SignalRef 0, outputNum = 0, inputNum = 0, previousValue = 5\<rparr>"
  let ?r2 = "\<lparr>destination = SignalRef 0, outputNum = 0, inputNum = 2, previousValue = 0\<rparr>"
  define h2 where
    "h2 = heapAfter (connectSignal (SignalRef 2) (SignalRef 0) (Some 0) (Some 2) connectedHeap)"
  define h3 where
    "h3 = heapAfter (disconnectSignal (SignalRef 2) (Some (SignalRef 0)) (Some 0) (Some 0) h2)"
  have run: "run [ConnectOp (SignalRef 2) (SignalRef 0) None None,
           ConnectOp (SignalRef 2) (SignalRef 0) (Some 0) (Some 2),
           DisconnectOp (SignalRef 2) (Some (SignalRef 0)) (Some 0) (Some 0)] emptyHeap = h3"
    by (simp add: h3_def h2_def connectedHeap_def)
  have r0: "inRange (destinationParam connectedHeap (SignalRef 0)) 0"
    by (simp add: connectedHeap_facts inRange_def)
  note c2 = connectSignal_overriding [OF connectedHeap_overridable r0,
      of "SignalRef 2" "Some 0" "Some 2"]
  have s2: "connectedSignals h2 (SignalRef 2) = Some [?r1, ?r2]"
    unfolding h2_def c2
    by (simp add: heapAfter_def connectedHeap_facts connectedHeap_value orZero_def)
  have g2: "disconnectGuard h2 (Some (SignalRef 0))"
    unfolding h2_def c2
    using connectedHeap_overridable by (simp add: heapAfter_def disconnectGuard_def)
  have sig2: "signals h2 = signals connectedHeap" by (simp add: h2_def)
  have sel: "selectConnections (Some (SignalRef 0)) (Some 0) (Some 0) [?r1, ?r2] = [?r1]"
    by (simp add: selectConnections_def matches_def)
  have rng: "inRange (destinationParam h2 (SignalRef 0)) 5"
    unfolding h2_def c2
    by (simp add: heapAfter_def destinationParam_updateParam_same connectedHeap_facts
        inRange_def)
  have "\<exists>hr. restoreAll [?r1] h2 = Inr hr"
    by (rule restoreAll_total) (use rng in simp)
  then obtain hr where hr: "restoreAll [?r1] h2 = Inr hr" by blast
  have h3: "h3 = hr\<lparr>connectedSignals := (connectedSignals h2)(SignalRef 2 \<mapsto> [?r2]),
                    wiring := wiring h2 @ [Disconnect (SignalRef 2) (Some (SignalRef 0)) (Some 0) (Some 0)]\<rparr>"
    unfolding h3_def
    using disconnectSignal_restored [OF g2 s2, of "Some 0" "Some 0" hr] hr
    by (simp add: sel heapAfter_def)
  have sigr: "signals hr = signals h2"
    using restoreAll_frame [of "[?r1]" h2] hr by (simp add: heapAfter_def)
  have p2: "paramOf h2 (SignalRef 0) = ParamRef 0"
    by (simp add: paramOf_def sig2 connectedHeap_sigParam)
  have cleared: "\<not> overridden (params hr 0)"
    by (rule restoreAll_flags_cleared [OF hr, of ?r1]) (simp_all add: p2)
  have rec: "recordsOf h3 (SignalRef 2) = [?r2]"
    by (simp add: h3)
  have flag: "getOverridden h3 (SignalRef 0) = False"
    using cleared by (simp add: h3 getOverridden_def sigr sig2 connectedHeap_sigParam)
  have "\<not> recordHasOverridden h3"
    unfolding recordHasOverridden_def
    using rec flag by (auto simp: isSignalOrParam_def intro!: exI [of _ "SignalRef 2"] exI [of _ ?r2])
  then show ?thesis unfolding run using rec flag by blast
qed

text \<open>
  C9. Let a source hold no record on a destination that passes the guard of connectSignal
  and whose bounds admit 0, at a current time that is not negative. Connecting the source to
  the destination twice returns both times and appends two records: the first carries the
  value the destination had before, the second the snapshot 0 left by the first connection;
  the destination is then flagged \<open>overridden\<close> when it is a Signal or a Param. A disconnect
  from that destination then returns. The store it leaves is the one obtained by clearing the
  flag (on a Signal or a Param) and calling \<open>setValueAtTime\<close> with the first snapshot at time
  0, then clearing the flag again and calling \<open>setValueAtTime(0, 0)\<close> for the second record,
  both calls returning, then removing both records and making the unwiring call. Afterwards
  the flag is unset, the schedule of the destination is the one the second connection left,
  and the destination is at the value 0 now and at every time from 0 on, whatever its value
  was before the first connection.
\<close>

theorem double_connect_restores_zero:
  assumes g: "isOverridable h dest"
    and r0: "inRange (destinationParam h dest) 0"
    and now: "0 \<le> now h"
    and fresh: "\<forall>c \<in> set (recordsOf h signal). destination c \<noteq> dest"
  shows "\<exists>h1 h2 ha hb h3.
      connectSignal signal dest o1 i1 h = Inr h1 \<and>
      connectSignal signal dest o2 i2 h1 = Inr h2 \<and>
      recordsOf h2 signal =
        recordsOf h signal @
        [\<lparr>destination = dest, outputNum = orZero o1, inputNum = orZero i1,
          previousValue = getValue h dest\<rparr>,
         \<lparr>destination = dest, outputNum = orZero o2, inputNum = orZero i2,
          previousValue = 0\<rparr>] \<and>
      getOverridden h2 dest = isSignalOrParam dest \<and>
      disconnectSignal signal (Some dest) None None h2 = Inr h3 \<and>
      callSetValueAtTime (getValue h dest) 0 dest
        (if isSignalOrParam dest then setOverridden False dest h2 else h2) = Inr ha \<and>
      callSetValueAtTime 0 0 dest
        (if isSignalOrParam dest then setOverridden False dest ha else ha) = Inr hb \<and>
      h3 = hb\<lparr>connectedSignals := (connectedSignals h2)(signal \<mapsto> recordsOf h signal),
              wiring := wiring h @ [Connect signal dest o1 i1, Connect signal dest o2 i2,
                                    Disconnect signal (Some dest) None None]\<rparr> \<and>
      recordsOf h3 signal = recordsOf h signal \<and>
      \<not> getOverridden h3 dest \<and>
      events (destinationParam h3 dest) = events (destinationParam h2 dest) \<and>
      getValue h3 dest = 0 \<and>
      (\<forall>t\<ge>0. callGetValueAtTime t dest h3 = 0)"
proof -
  let ?P = "destinationParam h dest"
  let ?R = "recordsOf h signal"
  have n: "\<And>n. dest \<noteq> NodeRef n" using g by (auto simp: isOverridable_def)
  define E1 where "E1 = insertEvent (SetValue 0 0) (cancelFrom 0 (initialValue ?P) (events ?P))"
  define r1 where "r1 = \<lparr>destination = dest, outputNum = orZero o1, inputNum = orZero i1,
                         previousValue = getValue h dest\<rparr>"
  define h1 where "h1 = (setOverridden True dest (updateParam dest (?P\<lparr>events := E1\<rparr>) h))
          \<lparr>connectedSignals := (connectedSignals h)(signal \<mapsto> ?R @ [r1]),
           wiring := wiring h @ [Connect signal dest o1 i1]\<rparr>"
  have c1: "connectSignal signal dest o1 i1 h = Inr h1"
    by (simp add: connectSignal_overriding [OF g r0] h1_def E1_def r1_def)
  have d1: "destinationParam h1 dest = ?P\<lparr>events := E1\<rparr>"
    by (simp add: h1_def destinationParam_updateParam_same n)
  have g1: "isOverridable h1 dest" using g by (simp add: h1_def)
  have n1: "now h1 = now h" by (simp add: h1_def)
  have rec1: "recordsOf h1 signal = ?R @ [r1]" by (simp add: h1_def)
  have cs1: "connectedSignals h1 = (connectedSignals h)(signal \<mapsto> ?R @ [r1])"
    by (simp add: h1_def)
  have r01: "inRange (destinationParam h1 dest) 0" using r0 by (simp add: d1)
  have v1: "getValue h1 dest = 0"
    using now r0
    by (simp add: getValue_def d1 n1 getValueAtTime_def E1_def overridden_schedule_value
        clamp_inRange)
  define E2 where "E2 = insertEvent (SetValue 0 0) (cancelFrom 0 (initialValue ?P) E1)"
  define r2 where "r2 = \<lparr>destination = dest, outputNum = orZero o2, inputNum = orZero i2,
                         previousValue = 0\<rparr>"
  define h2 where "h2 = (setOverridden True dest (updateParam dest (?P\<lparr>events := E2\<rparr>) h1))
          \<lparr>connectedSignals := (connectedSignals h1)(signal \<mapsto> (?R @ [r1]) @ [r2]),
           wiring := wiring h1 @ [Connect signal dest o2 i2]\<rparr>"
  have c2: "connectSignal signal dest o2 i2 h1 = Inr h2"
    by (simp add: connectSignal_overriding [OF g1 r01] d1 rec1 v1 h2_def E2_def r2_def)
  have d2: "destinationParam h2 dest = ?P\<lparr>events := E2\<rparr>"
    by (simp add: h2_def destinationParam_updateParam_same n)
  have g2: "disconnectGuard h2 (Some dest)" using g1 by (simp add: h2_def disconnectGuard_def)
  have n2: "now h2 = now h" by (simp add: h2_def n1)
  have cs2: "connectedSignals h2 signal = Some (?R @ [r1, r2])" by (simp add: h2_def)
  have rec2: "recordsOf h2 signal = ?R @ [r1, r2]" by (simp add: recordsOf_def cs2)
  have old: "filter (matches dest None None) ?R = []"
    by (rule filter_none) (use fresh in \<open>simp add: matches_def\<close>)
  have sel: "selectConnections (Some dest) None None (?R @ [r1, r2]) = [r1, r2]"
    by (simp add: selectConnections_def old matches_def r1_def r2_def)
  have e2: "\<And>e. e \<in> set E2 \<Longrightarrow> time e \<le> 0"
    unfolding E2_def by (rule overridden_schedule_times)
  define v0 where "v0 = getValue h dest"
  have rv0: "inRange ?P v0"
    unfolding v0_def getValue_def getValueAtTime_def by (rule inRange_clamp [OF r0])
  define hr where "hr = restoreStep r2 (restoreStep r1 h2)"
  have dn1: "\<And>n. destination r1 \<noteq> NodeRef n" and dn2: "\<And>n. destination r2 \<noteq> NodeRef n"
    using n by (simp_all add: r1_def r2_def)
  have ds1: "destinationParam (restoreStep r1 h2) dest
               = ?P\<lparr>events := insertEvent (SetValue 0 v0) E2\<rparr>"
  proof -
    have "destinationParam (restoreStep r1 h2) dest
            = (destinationParam h2 (destination r1))
                \<lparr>events := insertEvent (SetValue 0 (previousValue r1))
                             (events (destinationParam h2 (destination r1)))\<rparr>"
      using destinationParam_restoreStep [OF dn1, of h2 dest] by (simp add: r1_def)
    then show ?thesis by (simp add: r1_def d2 v0_def)
  qed
  have dr: "destinationParam hr dest
              = ?P\<lparr>events := insertEvent (SetValue 0 0) (insertEvent (SetValue 0 v0) E2)\<rparr>"
  proof -
    have "destinationParam hr dest
            = (destinationParam (restoreStep r1 h2) (destination r2))
                \<lparr>events := insertEvent (SetValue 0 (previousValue r2))
                             (events (destinationParam (restoreStep r1 h2) (destination r2)))\<rparr>"
      unfolding hr_def
      using destinationParam_restoreStep [OF dn2, of "restoreStep r1 h2" dest]
      by (simp add: r2_def)
    then show ?thesis by (simp add: r2_def ds1)
  qed
  have ra: "restoreAll [r1, r2] h2 = Inr hr"
  proof -
    have a: "inRange (destinationParam h2 (destination r1)) (previousValue r1)"
      using rv0 by (simp add: r1_def d2 v0_def)
    have b: "inRange (destinationParam (restoreStep r1 h2) (destination r2)) (previousValue r2)"
      using r0 by (simp add: r2_def d2)
    show ?thesis using a b by (simp add: restoreAll_Cons hr_def)
  qed
  define h3 where "h3 = hr\<lparr>connectedSignals := (connectedSignals h2)(signal \<mapsto>
              filter (\<lambda>conn. conn \<notin> set [r1, r2]) (?R @ [r1, r2])),
           wiring := wiring h2 @ [Disconnect signal (Some dest) None None]\<rparr>"
  have c3: "disconnectSignal signal (Some dest) None None h2 = Inr h3"
    using disconnectSignal_restored [OF g2 cs2, of None None hr] ra
    by (simp add: sel h3_def)
  have keep: "filter (\<lambda>conn. conn \<noteq> r1 \<and> conn \<noteq> r2) ?R = ?R"
    by (rule filter_all) (use fresh in \<open>auto simp: r1_def r2_def\<close>)
  have rec3: "recordsOf h3 signal = ?R"
    by (simp add: h3_def keep)
  have d3: "destinationParam h3 dest
              = ?P\<lparr>events := insertEvent (SetValue 0 0) (insertEvent (SetValue 0 v0) E2)\<rparr>"
    by (simp add: h3_def dr)
  have val: "callGetValueAtTime t dest h3 = 0" if t: "0 \<le> t" for t
  proof -
    have "evaluate (initialValue ?P)
            (insertEvent (SetValue 0 0) (insertEvent (SetValue 0 v0) E2)) t = 0"
      by (rule evaluate_insert_last) (use t e2 in \<open>auto dest: insertEvent_times [rotated]\<close>)
    then show ?thesis using r0
      by (simp add: callGetValueAtTime_def d3 getValueAtTime_def clamp_inRange)
  qed
  have n3: "now h3 = now h"
  proof -
    have "now hr = now h2" by (simp add: hr_def)
    then show ?thesis by (simp add: h3_def n2)
  qed
  have v3: "getValue h3 dest = 0"
    using val [of "now h"] now by (simp add: getValue_def callGetValueAtTime_def n3)
  have w2: "wiring h2 = wiring h @ [Connect signal dest o1 i1, Connect signal dest o2 i2]"
    by (simp add: h2_def h1_def)
  have o2: "getOverridden h2 dest = isSignalOrParam dest"
  proof (cases "isSignalOrParam dest")
    case True
    then show ?thesis by (simp add: h2_def getOverridden_setOverridden)
  next
    case False
    then show ?thesis by (cases dest) (simp_all add: isSignalOrParam_def getOverridden_def)
  qed
  have a1: "inRange (destinationParam h2 (destination r1)) (previousValue r1)"
    using rv0 by (simp add: r1_def d2 v0_def)
  have a2: "inRange (destinationParam (restoreStep r1 h2) (destination r2)) (previousValue r2)"
    using r0 by (simp add: r2_def d2)
  have f1: "destination r1 = dest" "previousValue r1 = getValue h dest"
    by (simp_all add: r1_def)
  have f2: "destination r2 = dest" "previousValue r2 = 0"
    by (simp_all add: r2_def)
  have ca: "callSetValueAtTime (getValue h dest) 0 dest
              (if isSignalOrParam dest then setOverridden False dest h2 else h2)
            = Inr (restoreStep r1 h2)"
    using restoreStep_call [OF a1] unfolding f1 .
  have cb: "callSetValueAtTime 0 0 dest
              (if isSignalOrParam dest then setOverridden False dest (restoreStep r1 h2)
               else restoreStep r1 h2)
            = Inr hr"
    using restoreStep_call [OF a2] unfolding f2 hr_def .
  have keep2: "filter (\<lambda>conn. conn \<notin> set [r1, r2]) (?R @ [r1, r2]) = ?R"
    using keep by simp
  have eq3: "h3 = hr\<lparr>connectedSignals := (connectedSignals h2)(signal \<mapsto> ?R),
              wiring := wiring h @ [Connect signal dest o1 i1, Connect signal dest o2 i2,
                                    Disconnect signal (Some dest) None None]\<rparr>"
    unfolding h3_def keep2 w2 by simp
  have o3: "\<not> getOverridden h3 dest"
  proof (cases "isSignalOrParam dest")
    case True
    obtain p where p: "paramOf hr dest = ParamRef p"
      and o: "getOverridden hr dest = overridden (params hr p)"
      using getOverridden_paramOf [OF True, of hr] by blast
    have "paramOf (restoreStep r1 h2) (destination r2) = ParamRef p"
      using p by (simp add: hr_def r2_def)
    then have "\<not> overridden (params hr p)"
      unfolding hr_def by (simp add: overridden_restoreStep)
    then show ?thesis by (simp add: h3_def o)
  next
    case False
    then show ?thesis by (cases dest) (simp_all add: isSignalOrParam_def getOverridden_def)
  qed
  have e3: "events (destinationParam h3 dest) = events (destinationParam h2 dest)"
  proof -
    have "insertEvent (SetValue 0 0) (insertEvent (SetValue 0 v0) E2)
            = insertEvent (SetValue 0 0) E2"
      by (rule insertEvent_replace) simp
    also have "\<dots> = E2"
      unfolding E2_def by (rule insertEvent_replace) simp
    finally show ?thesis by (simp add: d3 d2)
  qed
  show ?thesis
    apply (rule exI [of _ h1])
    apply (rule exI [of _ h2])
    apply (rule exI [of _ "restoreStep r1 h2"])
    apply (rule exI [of _ hr])
    apply (rule exI [of _ h3])
    apply (intro conjI allI impI)
                apply (rule c1)
               apply (rule c2)
              apply (simp add: rec2 r1_def r2_def)
             apply (rule o2)
            apply (rule c3)
           apply (rule ca)
          apply (rule cb)
         apply (rule eq3)
        apply (rule rec3)
       apply (rule o3)
      apply (rule e3)
     apply (rule v3)
    apply (erule val)
    done
qed

theorem double_connect_restores_zero_witness:
  "isOverridable emptyHeap (SignalRef 0) \<and>
   inRange (destinationParam emptyHeap (SignalRef 0)) 0 \<and>
   0 \<le> now emptyHeap \<and>
   recordsOf emptyHeap (SignalRef 2) = [] \<and>
   getValue emptyHeap (SignalRef 0) = 5 \<and>
   (\<exists>h1 h2 ha hb h3.
      connectSignal (SignalRef 2) (SignalRef 0) None None emptyHeap = Inr h1 \<and>
      connectSignal (SignalRef 2) (SignalRef 0) None None h1 = Inr h2 \<and>
      recordsOf h2 (SignalRef 2) =
        [\<lparr>destination = SignalRef 0, outputNum = 0, inputNum = 0, previousValue = 5\<rparr>,
         \<lparr>destination = SignalRef 0, outputNum = 0, inputNum = 0, previousValue = 0\<rparr>] \<and>
      getOverridden h2 (SignalRef 0) \<and>
      disconnectSignal (SignalRef 2) (Some (SignalRef 0)) None None h2 = Inr h3 \<and>
      callSetValueAtTime 5 0 (SignalRef 0) (setOverridden False (SignalRef 0) h2) = Inr ha \<and>
      callSetValueAtTime 0 0 (SignalRef 0) (setOverridden False (SignalRef 0) ha) = Inr hb \<and>
      h3 = hb\<lparr>connectedSignals := (connectedSignals h2)(SignalRef 2 \<mapsto> []),
              wiring := [Connect (SignalRef 2) (SignalRef 0) None None,
                         Connect (SignalRef 2) (SignalRef 0) None None,
                         Disconnect (SignalRef 2) (Some (SignalRef 0)) None None]\<rparr> \<and>
      recordsOf h3 (SignalRef 2) = [] \<and>
      \<not> getOverridden h3 (SignalRef 0) \<and>
      getValue h3 (SignalRef 0) = 0)"
proof -
  have g: "isOverridable emptyHeap (SignalRef 0)" by (rule emptyHeap_facts)
  have r: "inRange (destinationParam emptyHeap (SignalRef 0)) 0" by (rule emptyHeap_inRange)
  have n: "0 \<le> now emptyHeap" by (simp add: emptyHeap_facts)
  have e: "recordsOf emptyHeap (SignalRef 2) = []" by (rule emptyHeap_facts)
  have f: "\<forall>c \<in> set (recordsOf emptyHeap (SignalRef 2)). destination c \<noteq> SignalRef 0"
    by (simp add: e)
  have v: "getValue emptyHeap (SignalRef 0) = 5" by (rule emptyHeap_value)
  have w: "wiring emptyHeap = []" by (rule emptyHeap_facts)
  have s: "isSignalOrParam (SignalRef 0)" by (simp add: isSignalOrParam_def)
  show ?thesis
    using g r n e v double_connect_restores_zero [OF g r n f, of None None None None]
    by (simp add: orZero_def w s) blast
qed

section \<open>Construction of a Signal\<close>

text \<open>
  C10, as the code has it. A newly constructed Signal has \<open>override\<close> set, and \<open>start(0)\<close> has
  been called on its ToneConstantSource; the native source has been started at time 0 when
  the audio context is not suspended, and does not exist yet when it is. As the destination
  of a connect the new Signal passes the guard; when its bounds admit 0 the call returns,
  its schedule is the single value event 0 at time 0, \<open>overridden\<close> is true, and the record
  and the wiring are made; when they do not, the zeroing raises RangeError and \<open>overridden\<close>
  stays false.
\<close>

theorem Signal_new_override:
  "override (signals (Signal_new options isSuspended sid addr h) sid) \<and>
   gainStart (constantSource (signals (Signal_new options isSuspended sid addr h) sid)) = Some 0 \<and>
   sourceStart (constantSource (signals (Signal_new options isSuspended sid addr h) sid))
     = (if isSuspended then None else Some 0) \<and>
   isOverridable (Signal_new options isSuspended sid addr h) (SignalRef sid) \<and>
   (inRange (destinationParam (Signal_new options isSuspended sid addr h) (SignalRef sid)) 0 \<longrightarrow>
      (\<exists>h'. connectSignal signal (SignalRef sid) outN inN (Signal_new options isSuspended sid addr h)
               = Inr h' \<and>
         events (destinationParam h' (SignalRef sid)) = [SetValue 0 0] \<and>
         getOverridden h' (SignalRef sid) \<and>
         recordsOf h' signal =
           recordsOf h signal @
           [\<lparr>destination = SignalRef sid, outputNum = orZero outN, inputNum = orZero inN,
             previousValue = getValue (Signal_new options isSuspended sid addr h) (SignalRef sid)\<rparr>] \<and>
         wiring h' = wiring h @ [Connect signal (SignalRef sid) outN inN])) \<and>
   (\<not> inRange (destinationParam (Signal_new options isSuspended sid addr h) (SignalRef sid)) 0 \<longrightarrow>
      raised (connectSignal signal (SignalRef sid) outN inN (Signal_new options isSuspended sid addr h))
        = Some RangeError \<and>
      \<not> getOverridden
          (heapAfter (connectSignal signal (SignalRef sid) outN inN
                        (Signal_new options isSuspended sid addr h)))
          (SignalRef sid))"
proof -
  let ?h = "Signal_new options isSuspended sid addr h"
  have g: "isOverridable ?h (SignalRef sid)" by (rule Signal_new_passes_guard)
  have sp: "isSignalOrParam (SignalRef sid)" by (simp add: isSignalOrParam_def)
  have ok: "\<exists>h'. connectSignal signal (SignalRef sid) outN inN ?h = Inr h' \<and>
         events (destinationParam h' (SignalRef sid)) = [SetValue 0 0] \<and>
         getOverridden h' (SignalRef sid) \<and>
         recordsOf h' signal =
           recordsOf h signal @
           [\<lparr>destination = SignalRef sid, outputNum = orZero outN, inputNum = orZero inN,
             previousValue = getValue ?h (SignalRef sid)\<rparr>] \<and>
         wiring h' = wiring h @ [Connect signal (SignalRef sid) outN inN]"
    if r: "inRange (destinationParam ?h (SignalRef sid)) 0"
    unfolding connectSignal_overriding [OF g r]
    by (simp add: getOverridden_setOverridden sp)
       (simp add: Signal_new_destinationParam cancelFrom_def insertEvent_def)
  have err: "raised (connectSignal signal (SignalRef sid) outN inN ?h) = Some RangeError \<and>
      \<not> getOverridden (heapAfter (connectSignal signal (SignalRef sid) outN inN ?h)) (SignalRef sid)"
    if r: "\<not> inRange (destinationParam ?h (SignalRef sid)) 0"
    unfolding connectSignal_rangeError [OF g r]
    by (simp add: raised_def heapAfter_def Signal_new_flag)
  show ?thesis
    using ok err g by (simp add: Signal_new_signal)
qed

theorem Signal_new_override_witness:
  "override (signals unitHeap 0) \<and>
   sourceStart (constantSource (signals unitHeap 0)) = Some 0 \<and>
   inRange (destinationParam unitHeap (SignalRef 0)) 0 \<and>
   (\<exists>h'. connectSignal (SignalRef 2) (SignalRef 0) None None unitHeap = Inr h' \<and>
      events (destinationParam h' (SignalRef 0)) = [SetValue 0 0] \<and>
      getOverridden h' (SignalRef 0))"
proof -
  have r: "inRange (destinationParam unitHeap (SignalRef 0)) 0"
    by (simp add: unitHeap_def Signal_new_destinationParam inRange_def)
  show ?thesis
    using r
      Signal_new_override [of "\<lparr>optValue = 1, optMinValue = Some 0, optMaxValue = Some 1\<rparr>"
        False 0 0 emptyHeap "SignalRef 2" None None]
    unfolding unitHeap_def [symmetric]
    by auto
qed

text \<open>
  A Signal constructed in a suspended context with \<open>minValue\<close> 1: its \<open>override\<close> flag is
  set, yet no native source exists or has been started, and connecting to it raises
  RangeError and leaves \<open>overridden\<close> false.
\<close>

theorem Signal_new_counterexample:
  "override (signals suspendedHeap 0) \<and>
   hasSource (constantSource (signals suspendedHeap 0)) = False \<and>
   sourceStart (constantSource (signals suspendedHeap 0)) = None \<and>
   raised (connectSignal (SignalRef 2) (SignalRef 0) None None suspendedHeap) = Some RangeError \<and>
   getOverridden (heapAfter (connectSignal (SignalRef 2) (SignalRef 0) None None suspendedHeap))
     (SignalRef 0) = False"
proof -
  have g: "isOverridable suspendedHeap (SignalRef 0)"
    unfolding suspendedHeap_def by (rule Signal_new_passes_guard)
  have r: "\<not> inRange (destinationParam suspendedHeap (SignalRef 0)) 0"
    by (simp add: suspendedHeap_def Signal_new_destinationParam inRange_def)
  have f: "getOverridden suspendedHeap (SignalRef 0) = False"
    unfolding suspendedHeap_def by (rule Signal_new_flag)
  have s: "signals suspendedHeap 0 =
     \<lparr>override = True, sigParam = 0,
      constantSource = \<lparr>offset = 0, hasSource = False, gainStart = Some 0,
                         sourceStart = None\<rparr>\<rparr>"
    by (simp add: suspendedHeap_def Signal_new_signal)
  show ?thesis
    unfolding connectSignal_rangeError [OF g r]
    by (simp add: s raised_def heapAfter_def f)
qed

end
